theory Spec2Isabelle
  imports
    Complex_Main
    "HOL-Library.Char_ord"
    "HOL-Library.List_Lexorder"
    "HOL-Library.Product_Lexorder"
    "HOL-Library.Multiset"
begin

section \<open>Data model\<close>

text \<open>
  A data frame is the list of its rows, in row order. A cell may be missing (pandas
  \<open>NaN\<close>/\<open>NaT\<close>/\<open>None\<close>, SQL \<open>NULL\<close>): every column is an \<open>option\<close>.
  Dates are day ordinals, so that the order of dates is the order of integers.
  Prices and amounts are exact rationals: the rounding error of binary floating point
  is not part of this model.
\<close>

type_synonym date = int

text \<open>One row of the spreadsheet \<^verbatim>\<open>Coffee Shop Sales.xlsx\<close> (\<open>df\<close> in the ingestion script).\<close>

record raw_row =
  transaction_id :: "int option"
  transaction_date :: "date option"
  transaction_time :: "string option"
  transaction_qty :: "int option"
  store_id :: "int option"
  store_location :: "string option"
  product_id :: "int option"
  product_category :: "string option"
  product_type :: "string option"
  product_detail :: "string option"
  unit_price :: "rat option"

text \<open>The three tables; the field prefixes are the aliases of the SQL query.\<close>

record store_row =
  s_store_id :: "int option"
  s_store_location :: "string option"

record product_row =
  p_product_id :: "int option"
  p_product_category :: "string option"
  p_product_type :: "string option"
  p_product_detail :: "string option"
  p_unit_price :: "rat option"

record transaction_row =
  t_transaction_id :: "int option"
  t_transaction_date :: "date option"
  t_transaction_time :: "string option"
  t_transaction_qty :: "int option"
  t_store_id :: "int option"
  t_product_id :: "int option"

record database =
  stores_tbl :: "store_row list"
  products_tbl :: "product_row list"
  transactions_tbl :: "transaction_row list"

section \<open>The pandas operations the scripts use\<close>

text \<open>\<^verbatim>\<open>DataFrame.drop_duplicates()\<close>: of equal rows the first is kept (\<open>keep='first'\<close>),
  the order of the kept rows is unchanged, and two missing cells count as equal.\<close>

definition drop_duplicates :: "'a list \<Rightarrow> 'a list" where
  "drop_duplicates xs = rev (remdups (rev xs))"

text \<open>The values of a column that are present, in row order.\<close>

fun dropna :: "'a option list \<Rightarrow> 'a list" where
  "dropna [] = []"
| "dropna (None # vs) = dropna vs"
| "dropna (Some v # vs) = v # dropna vs"

text \<open>The aggregations: \<open>'first'\<close> is the first value of the group that is not missing,
  \<open>'sum'\<close> adds the values that are present (0 when there is none), \<open>'mean'\<close> is their
  mean (missing when there is none), \<open>'count'\<close> counts them.\<close>

definition first_agg :: "'a option list \<Rightarrow> 'a option" where
  "first_agg vs = (case dropna vs of [] \<Rightarrow> None | v # _ \<Rightarrow> Some v)"

definition sum_agg :: "('a::monoid_add) option list \<Rightarrow> 'a" where
  "sum_agg vs = sum_list (dropna vs)"

definition mean_agg :: "rat option list \<Rightarrow> rat option" where
  "mean_agg vs =
     (let ys = dropna vs
      in if ys = [] then None else Some (sum_list ys / of_nat (length ys)))"

definition count_agg :: "'a option list \<Rightarrow> nat" where
  "count_agg vs = length (dropna vs)"

text \<open>What a row adds to a \<open>'sum'\<close> of the column \<open>f\<close>: its cell, or nothing when the
  cell is missing.\<close>

definition amount :: "('r \<Rightarrow> ('a::monoid_add) option) \<Rightarrow> 'r \<Rightarrow> 'a" where
  "amount f r = (case f r of None \<Rightarrow> 0 | Some v \<Rightarrow> v)"

text \<open>\<^verbatim>\<open>df.groupby(key)\<close> (\<open>sort=True\<close>, \<open>dropna=True\<close>): one group per key value that is
  present, in ascending order of the key; a group holds the rows with that key, in row
  order. Rows whose key is missing are in no group.\<close>

definition group_keys :: "('r \<Rightarrow> ('k::linorder) option) \<Rightarrow> 'r list \<Rightarrow> 'k list" where
  "group_keys key df = sort (remdups (dropna (map key df)))"

definition group_rows :: "('r \<Rightarrow> 'k option) \<Rightarrow> 'r list \<Rightarrow> 'k \<Rightarrow> 'r list" where
  "group_rows key df k = filter (\<lambda>r. key r = Some k) df"

definition groupby :: "('r \<Rightarrow> ('k::linorder) option) \<Rightarrow> 'r list \<Rightarrow> ('k \<times> 'r list) list" where
  "groupby key df = map (\<lambda>k. (k, group_rows key df k)) (group_keys key df)"

section \<open>Ingestion (\<^verbatim>\<open>01_Data_ingestion.py\<close>)\<close>

subsection \<open>Step 3: the dimension tables\<close>

text \<open>\<^verbatim>\<open>df[['store_id', 'store_location']]\<close>, row by row.\<close>

definition store_columns :: "raw_row \<Rightarrow> store_row" where
  "store_columns r = \<lparr>s_store_id = store_id r, s_store_location = store_location r\<rparr>"

definition stores :: "raw_row list \<Rightarrow> store_row list" where
  "stores df = drop_duplicates (map store_columns df)"

text \<open>The \<^verbatim>\<open>.agg({...})\<close> of the products table on one group, with the group's key as
  the \<open>product_id\<close> column (\<^verbatim>\<open>reset_index()\<close>).\<close>

definition agg_product :: "int \<Rightarrow> raw_row list \<Rightarrow> product_row" where
  "agg_product k g =
     \<lparr>p_product_id = Some k,
      p_product_category = first_agg (map product_category g),
      p_product_type = first_agg (map product_type g),
      p_product_detail = first_agg (map product_detail g),
      p_unit_price = mean_agg (map unit_price g)\<rparr>"

definition products :: "raw_row list \<Rightarrow> product_row list" where
  "products df = map (\<lambda>(k, g). agg_product k g) (groupby product_id df)"

definition transaction_columns :: "raw_row \<Rightarrow> transaction_row" where
  "transaction_columns r =
     \<lparr>t_transaction_id = transaction_id r,
      t_transaction_date = transaction_date r,
      t_transaction_time = transaction_time r,
      t_transaction_qty = transaction_qty r,
      t_store_id = store_id r,
      t_product_id = product_id r\<rparr>"

definition transactions :: "raw_row list \<Rightarrow> transaction_row list" where
  "transactions df = map transaction_columns df"

subsection \<open>Step 4: the load, and step 5: the verification\<close>

text \<open>
  The database is outside the script. What it can do to the script is a parameter:
  for each call that can raise, either nothing (the call succeeds) or the message of the
  exception. A \<^verbatim>\<open>to_sql\<close> that raises leaves its own table in a state the script does not
  determine, so the fault carries that state too.
\<close>

record faults =
  engine_fault :: "string option"
  stores_fault :: "(string \<times> store_row list) option"
  products_fault :: "(string \<times> product_row list) option"
  transactions_fault :: "(string \<times> transaction_row list) option"
  verify_fault :: "string option"

definition no_faults :: faults where
  "no_faults =
     \<lparr>engine_fault = None, stores_fault = None, products_fault = None,
      transactions_fault = None, verify_fault = None\<rparr>"

text \<open>A run in which the engine is created and the three loads succeed.\<close>

definition all_loaded :: "faults \<Rightarrow> bool" where
  "all_loaded f =
     (engine_fault f = None \<and> stores_fault f = None \<and> products_fault f = None
      \<and> transactions_fault f = None)"

text \<open>The console: one value per printed line. Lines with a number or a message in them
  are constructors; the fixed lines are \<open>Text\<close> (blank lines and the check-mark and
  cross glyphs are left out).\<close>

datatype line =
    Text string
  | Prepared_stores nat
  | Prepared_products nat
  | Prepared_transactions nat
  | Loaded_stores
  | Loaded_products
  | Loaded_transactions nat
  | Error_line string
  | Stores_count nat
  | Products_count nat
  | Transactions_count nat
  | Could_not_verify string

definition prepare_lines :: "raw_row list \<Rightarrow> line list" where
  "prepare_lines df =
     [Text ''Step 3: Preparing dimension tables...'',
      Prepared_stores (length (stores df)),
      Prepared_products (length (products df)),
      Prepared_transactions (length (transactions df))]"

definition success_banner :: "line list" where
  "success_banner =
     [Text (replicate 50 CHR ''=''),
      Text ''SUCCESS! All data loaded to SQL Server'',
      Text (replicate 50 CHR ''='')]"

definition troubleshooting :: "string \<Rightarrow> line list" where
  "troubleshooting e =
     [Error_line e,
      Text ''Troubleshooting:'',
      Text ''1. Check SQL Server is running'',
      Text (''2. Verify database '' @ [CHR 0x27] @ ''MavenRoasters'' @ [CHR 0x27] @ '' exists''),
      Text ''3. Confirm tables are created'',
      Text ''4. Check ODBC Driver 17 is installed'']"

text \<open>The \<^verbatim>\<open>try\<close> block of step 4. Each \<^verbatim>\<open>to_sql(..., if_exists='replace')\<close> that succeeds
  replaces the whole table by the frame; the first call that raises ends the block, and
  the \<^verbatim>\<open>except\<close> branch prints the message and the checklist.\<close>

definition load_to_sql :: "faults \<Rightarrow> raw_row list \<Rightarrow> database \<Rightarrow> database \<times> line list" where
  "load_to_sql f df db =
     (case engine_fault f of
        Some e \<Rightarrow> (db, troubleshooting e)
      | None \<Rightarrow>
     (case stores_fault f of
        Some (e, left) \<Rightarrow> (db\<lparr>stores_tbl := left\<rparr>, troubleshooting e)
      | None \<Rightarrow>
     (let db1 = db\<lparr>stores_tbl := drop_duplicates (stores df)\<rparr> in
      case products_fault f of
        Some (e, left) \<Rightarrow> (db1\<lparr>products_tbl := left\<rparr>, Loaded_stores # troubleshooting e)
      | None \<Rightarrow>
     (let db2 = db1\<lparr>products_tbl := drop_duplicates (products df)\<rparr>;
          transactions' = drop_duplicates (transactions df) in
      case transactions_fault f of
        Some (e, left) \<Rightarrow>
          (db2\<lparr>transactions_tbl := left\<rparr>, [Loaded_stores, Loaded_products] @ troubleshooting e)
      | None \<Rightarrow>
          (db2\<lparr>transactions_tbl := transactions'\<rparr>,
           [Loaded_stores, Loaded_products, Loaded_transactions (length transactions')]
           @ success_banner)))))"

definition verification :: "faults \<Rightarrow> database \<Rightarrow> line list" where
  "verification f db =
     Text ''Step 5: Verifying data...'' #
     (case verify_fault f of
        Some e \<Rightarrow> [Could_not_verify e]
      | None \<Rightarrow>
          [Text ''Database record counts:'',
           Stores_count (length (stores_tbl db)),
           Products_count (length (products_tbl db)),
           Transactions_count (length (transactions_tbl db))])"

text \<open>The script from step 3 on: the database it leaves and the lines it prints.\<close>

definition data_ingestion :: "faults \<Rightarrow> raw_row list \<Rightarrow> database \<Rightarrow> database \<times> line list" where
  "data_ingestion f df db =
     (let (db', loaded) = load_to_sql f df db
      in (db',
          prepare_lines df
          @ [Text ''Step 4: Loading data to SQL Server...''] @ loaded
          @ verification f db'
          @ [Text ''Data ingestion complete!'']))"

section \<open>The joined view (the SQL query of the analysis scripts)\<close>

text \<open>One row of the query's result (\<open>df\<close> in the analysis scripts). The forecasting
  script selects fewer of these columns and three clock columns no definition below
  reads; its \<open>date\<close> column is \<open>transaction_date\<close> converted by \<^verbatim>\<open>pd.to_datetime\<close>.\<close>

record joined_row =
  j_transaction_id :: "int option"
  j_transaction_date :: "date option"
  j_transaction_time :: "string option"
  j_transaction_qty :: "int option"
  j_store_id :: "int option"
  j_store_location :: "string option"
  j_product_id :: "int option"
  j_product_category :: "string option"
  j_product_type :: "string option"
  j_product_detail :: "string option"
  j_unit_price :: "rat option"
  j_total_amount :: "rat option"

text \<open>SQL equality in a join condition: true only when both sides are present and equal.\<close>

definition sql_eq :: "'a option \<Rightarrow> 'a option \<Rightarrow> bool" where
  "sql_eq a b = (a \<noteq> None \<and> a = b)"

text \<open>\<^verbatim>\<open>t.transaction_qty * p.unit_price\<close>: \<open>NULL\<close> when either factor is.\<close>

definition total_amount :: "int option \<Rightarrow> rat option \<Rightarrow> rat option" where
  "total_amount qty price =
     (case (qty, price) of (Some q, Some u) \<Rightarrow> Some (of_int q * u) | _ \<Rightarrow> None)"

definition query :: "database \<Rightarrow> joined_row list" where
  "query db =
     [\<lparr>j_transaction_id = t_transaction_id t,
       j_transaction_date = t_transaction_date t,
       j_transaction_time = t_transaction_time t,
       j_transaction_qty = t_transaction_qty t,
       j_store_id = s_store_id s,
       j_store_location = s_store_location s,
       j_product_id = p_product_id p,
       j_product_category = p_product_category p,
       j_product_type = p_product_type p,
       j_product_detail = p_product_detail p,
       j_unit_price = p_unit_price p,
       j_total_amount = total_amount (t_transaction_qty t) (p_unit_price p)\<rparr>.
      t \<leftarrow> transactions_tbl db,
      s \<leftarrow> stores_tbl db, sql_eq (t_store_id t) (s_store_id s),
      p \<leftarrow> products_tbl db, sql_eq (t_product_id t) (p_product_id p)]"

section \<open>Exploration (\<^verbatim>\<open>02_eda.py\<close>)\<close>

text \<open>\<^verbatim>\<open>.round(2)\<close>: to the nearest multiple of 0.01, a tie to the even one.\<close>

definition rint :: "rat \<Rightarrow> int" where
  "rint x =
     (let f = \<lfloor>x\<rfloor>; d = x - of_int f
      in if d < 1 / 2 then f else if 1 / 2 < d then f + 1 else if even f then f else f + 1)"

definition round2 :: "rat \<Rightarrow> rat" where
  "round2 x = of_int (rint (x * 100)) / 100"

text \<open>\<^verbatim>\<open>sort_values(col, ascending=False)\<close>: descending in the column, rows with equal
  values in their former order, rows whose value is missing last.\<close>

definition sort_values_desc :: "('r \<Rightarrow> rat option) \<Rightarrow> 'r list \<Rightarrow> 'r list" where
  "sort_values_desc col df =
     rev (sort_key (\<lambda>r. case col r of Some v \<Rightarrow> v | None \<Rightarrow> 0)
            (rev (filter (\<lambda>r. col r \<noteq> None) df)))
     @ filter (\<lambda>r. col r = None) df"

text \<open>\<^verbatim>\<open>df['total_amount'].sum()\<close>, the total revenue the script prints.\<close>

definition total_revenue :: "joined_row list \<Rightarrow> rat" where
  "total_revenue df = sum_agg (map j_total_amount df)"

record store_stat =
  ss_store_location :: string
  ss_Transactions :: nat
  ss_Total_Revenue :: rat
  ss_Avg_Transaction :: "rat option"

definition store_stats :: "joined_row list \<Rightarrow> store_stat list" where
  "store_stats df =
     sort_values_desc (\<lambda>r. Some (ss_Total_Revenue r))
       (map (\<lambda>(k, g).
               \<lparr>ss_store_location = k,
                ss_Transactions = count_agg (map j_transaction_id g),
                ss_Total_Revenue = round2 (sum_agg (map j_total_amount g)),
                ss_Avg_Transaction = map_option round2 (mean_agg (map j_total_amount g))\<rparr>)
            (groupby j_store_location df))"

text \<open>\<^verbatim>\<open>store_revenue\<close>, the series the bar chart draws: the same sums, not rounded.\<close>

definition store_revenue :: "joined_row list \<Rightarrow> (string \<times> rat) list" where
  "store_revenue df =
     sort_values_desc (\<lambda>r. Some (snd r))
       (map (\<lambda>(k, g). (k, sum_agg (map j_total_amount g))) (groupby j_store_location df))"

record category_stat =
  cs_product_category :: string
  cs_Transactions :: nat
  cs_Revenue :: rat

definition category_stats :: "joined_row list \<Rightarrow> category_stat list" where
  "category_stats df =
     sort_values_desc (\<lambda>r. Some (cs_Revenue r))
       (map (\<lambda>(k, g).
               \<lparr>cs_product_category = k,
                cs_Transactions = count_agg (map j_transaction_id g),
                cs_Revenue = round2 (sum_agg (map j_total_amount g))\<rparr>)
            (groupby j_product_category df))"

section \<open>Forecasting (\<^verbatim>\<open>04_modelling.py\<close>)\<close>

subsection \<open>Part 1: the daily series\<close>

record daily_row =
  dd_date :: date
  dd_num_transactions :: nat
  dd_revenue :: rat
  dd_items_sold :: int

definition daily_data :: "joined_row list \<Rightarrow> daily_row list" where
  "daily_data df =
     map (\<lambda>(d, g).
            \<lparr>dd_date = d,
             dd_num_transactions = count_agg (map j_transaction_id g),
             dd_revenue = sum_agg (map j_total_amount g),
             dd_items_sold = sum_agg (map j_transaction_qty g)\<rparr>)
         (groupby j_transaction_date df)"

subsection \<open>Part 3: moving averages\<close>

text \<open>\<^verbatim>\<open>Series.rolling(window, center=True).mean()\<close> on a series with no missing value.
  The window of position \<open>i\<close> ends (exclusively) at \<open>i + 1 + offset\<close> with
  \<open>offset = (window - 1) // 2\<close>, begins \<open>window\<close> positions before, and is clipped to
  the series; \<open>min_periods\<close> is \<open>window\<close>, so a clipped window gives a missing value.\<close>

definition rolling_mean :: "nat \<Rightarrow> rat list \<Rightarrow> rat option list" where
  "rolling_mean window xs =
     map (\<lambda>i. let offset = (window - 1) div 2;
                  end = min (i + 1 + offset) (length xs);
                  start = (i + 1 + offset) - window;
                  w = take (end - start) (drop start xs)
              in if window \<le> length w then Some (sum_list w / of_nat (length w)) else None)
         [0..<length xs]"

definition MA_7 :: "daily_row list \<Rightarrow> rat option list" where
  "MA_7 daily = rolling_mean 7 (map dd_revenue daily)"

definition MA_14 :: "daily_row list \<Rightarrow> rat option list" where
  "MA_14 daily = rolling_mean 14 (map dd_revenue daily)"

subsection \<open>Part 4: the train/test split\<close>

text \<open>The feature columns. A date is its proleptic Gregorian ordinal (day 1 is Monday
  1 January of year 1), so \<open>dayofweek\<close> (Monday 0) is arithmetic; the ISO week of a date is
  a parameter.\<close>

record features =
  day_number :: int
  day_of_week :: nat
  is_weekend :: nat
  week_number :: nat

definition dayofweek :: "date \<Rightarrow> nat" where
  "dayofweek d = nat ((d + 6) mod 7)"

definition feature_rows :: "(date \<Rightarrow> nat) \<Rightarrow> daily_row list \<Rightarrow> (nat \<times> features) list" where
  "feature_rows isoweek daily =
     zip [0..<length daily]
       (map (\<lambda>r. \<lparr>day_number = dd_date r - Min (set (map dd_date daily)),
                   day_of_week = dayofweek (dd_date r),
                   is_weekend = (if dayofweek (dd_date r) \<in> {5, 6} then 1 else 0),
                   week_number = isoweek (dd_date r)\<rparr>) daily)"

datatype error = ValueError

text \<open>\<^verbatim>\<open>sklearn.model_selection.train_test_split(X, y, test_size, shuffle=False)\<close> with a
  fractional \<open>test_size\<close>: \<open>n_test = ceil(test_size * n_samples)\<close>, the training rows are
  the first \<open>n_samples - n_test\<close>, the test rows the rest, and an empty training set is a
  \<^verbatim>\<open>ValueError\<close>. Each row of \<open>X\<close> carries its index label.\<close>

definition train_test_split ::
  "rat \<Rightarrow> 'a list \<Rightarrow> 'b list \<Rightarrow> error + ('a list \<times> 'a list \<times> 'b list \<times> 'b list)" where
  "train_test_split test_size X y =
     (let n_samples = length X;
          n_test = nat \<lceil>test_size * of_nat n_samples\<rceil>;
          n_train = n_samples - n_test
      in if length y \<noteq> n_samples then Inl ValueError
         else if n_train = 0 then Inl ValueError
         else Inr (take n_train X, take n_test (drop n_train X),
                   take n_train y, take n_test (drop n_train y)))"

definition split_daily ::
  "(date \<Rightarrow> nat) \<Rightarrow> daily_row list \<Rightarrow>
   error + ((nat \<times> features) list \<times> (nat \<times> features) list \<times> rat list \<times> rat list)" where
  "split_daily isoweek daily =
     train_test_split (2 / 10) (feature_rows isoweek daily) (map dd_revenue daily)"

text \<open>\<^verbatim>\<open>daily_data.loc[X.index, 'date']\<close>: the dates of the rows of a segment.\<close>

definition dates_of :: "daily_row list \<Rightarrow> (nat \<times> features) list \<Rightarrow> date list" where
  "dates_of daily X = map (\<lambda>(i, _). dd_date (daily ! i)) X"

subsection \<open>Part 6: the forecast per store\<close>

definition store_date :: "joined_row \<Rightarrow> (string \<times> date) option" where
  "store_date r =
     (case (j_store_location r, j_transaction_date r) of
        (Some s, Some d) \<Rightarrow> Some (s, d)
      | _ \<Rightarrow> None)"

text \<open>\<open>store_daily\<close> has the columns \<open>store\<close>, \<open>date\<close> and \<open>revenue\<close>.\<close>

definition store_daily :: "joined_row list \<Rightarrow> (string \<times> date \<times> rat) list" where
  "store_daily df =
     map (\<lambda>((s, d), g). (s, d, sum_agg (map j_total_amount g))) (groupby store_date df)"

definition store_avg :: "joined_row list \<Rightarrow> (string \<times> rat option) list" where
  "store_avg df =
     sort_values_desc snd
       (map (\<lambda>(s, g). (s, mean_agg (map (\<lambda>(_, _, revenue). Some revenue) g)))
            (groupby (\<lambda>(store, _, _). Some store) (store_daily df)))"

definition weekly_forecast :: "joined_row list \<Rightarrow> (string \<times> rat option) list" where
  "weekly_forecast df = map (\<lambda>(store, avg_rev). (store, map_option (\<lambda>a. a * 7) avg_rev)) (store_avg df)"

section \<open>Concrete inputs\<close>

definition empty_db :: database where
  "empty_db = \<lparr>stores_tbl = [], products_tbl = [], transactions_tbl = []\<rparr>"

text \<open>The example of the specification: store A sells 2 of product X at 3.00 and 1 of
  product Y at 5.00, store B sells 1 of product X at 3.00. Stores A and B have the ids 1
  and 2, products X and Y the ids 10 and 20; the cells the example leaves open are filled
  in.\<close>

definition scenario :: "raw_row list" where
  "scenario =
     [\<lparr>transaction_id = Some 1, transaction_date = Some 738521,
       transaction_time = Some ''07:06:11'', transaction_qty = Some 2,
       store_id = Some 1, store_location = Some ''A'',
       product_id = Some 10, product_category = Some ''Coffee'',
       product_type = Some ''Drip coffee'', product_detail = Some ''X'',
       unit_price = Some 3\<rparr>,
      \<lparr>transaction_id = Some 2, transaction_date = Some 738521,
       transaction_time = Some ''07:08:56'', transaction_qty = Some 1,
       store_id = Some 1, store_location = Some ''A'',
       product_id = Some 20, product_category = Some ''Tea'',
       product_type = Some ''Brewed Chai tea'', product_detail = Some ''Y'',
       unit_price = Some 5\<rparr>,
      \<lparr>transaction_id = Some 3, transaction_date = Some 738522,
       transaction_time = Some ''08:15:00'', transaction_qty = Some 1,
       store_id = Some 2, store_location = Some ''B'',
       product_id = Some 10, product_category = Some ''Coffee'',
       product_type = Some ''Drip coffee'', product_detail = Some ''X'',
       unit_price = Some 3\<rparr>]"

text \<open>One store id spelled with two locations.\<close>

definition two_locations :: "raw_row list" where
  "two_locations =
     [\<lparr>transaction_id = Some 1, transaction_date = Some 738521,
       transaction_time = Some ''07:06:11'', transaction_qty = Some 2,
       store_id = Some 5, store_location = Some ''Astoria'',
       product_id = Some 32, product_category = Some ''Coffee'',
       product_type = Some ''Drip coffee'', product_detail = Some ''Ethiopia Rg'',
       unit_price = Some 3\<rparr>,
      \<lparr>transaction_id = Some 2, transaction_date = Some 738521,
       transaction_time = Some ''07:08:56'', transaction_qty = Some 1,
       store_id = Some 5, store_location = Some ''astoria'',
       product_id = Some 32, product_category = Some ''Coffee'',
       product_type = Some ''Drip coffee'', product_detail = Some ''Ethiopia Rg'',
       unit_price = Some 3\<rparr>]"

text \<open>The load of the products table fails; the engine and the verification work.\<close>

definition products_down :: faults where
  "products_down = no_faults\<lparr>products_fault := Some (''Login timeout expired'', [])\<rparr>"

text \<open>One product id in two rows: the first has no category, the second no price.\<close>

definition missing_cells :: "raw_row list" where
  "missing_cells =
     [\<lparr>transaction_id = Some 1, transaction_date = Some 738521,
       transaction_time = Some ''07:06:11'', transaction_qty = Some 2,
       store_id = Some 5, store_location = Some ''Astoria'',
       product_id = Some 32, product_category = None,
       product_type = Some ''Drip coffee'', product_detail = Some ''Ethiopia Rg'',
       unit_price = Some 3\<rparr>,
      \<lparr>transaction_id = Some 2, transaction_date = Some 738521,
       transaction_time = Some ''07:08:56'', transaction_qty = Some 1,
       store_id = Some 5, store_location = Some ''Astoria'',
       product_id = Some 32, product_category = Some ''Coffee'',
       product_type = Some ''Drip coffee'', product_detail = Some ''Ethiopia Rg'',
       unit_price = None\<rparr>]"

text \<open>One product sold once in each of three stores, its price raised by a cent for
  the third sale.\<close>

definition price_change :: "raw_row list" where
  "price_change =
     [\<lparr>transaction_id = Some 1, transaction_date = Some 738521,
       transaction_time = Some ''07:06:11'', transaction_qty = Some 1,
       store_id = Some 3, store_location = Some ''Astoria'',
       product_id = Some 32, product_category = Some ''Coffee'',
       product_type = Some ''Drip coffee'', product_detail = Some ''Ethiopia Rg'',
       unit_price = Some 1\<rparr>,
      \<lparr>transaction_id = Some 2, transaction_date = Some 738521,
       transaction_time = Some ''07:08:56'', transaction_qty = Some 1,
       store_id = Some 5, store_location = Some ''Lower Manhattan'',
       product_id = Some 32, product_category = Some ''Coffee'',
       product_type = Some ''Drip coffee'', product_detail = Some ''Ethiopia Rg'',
       unit_price = Some 1\<rparr>,
      \<lparr>transaction_id = Some 3, transaction_date = Some 738522,
       transaction_time = Some ''09:30:00'', transaction_qty = Some 1,
       store_id = Some 8, store_location = Some ''Hell's Kitchen'',
       product_id = Some 32, product_category = Some ''Coffee'',
       product_type = Some ''Drip coffee'', product_detail = Some ''Ethiopia Rg'',
       unit_price = Some (101 / 100)\<rparr>]"

text \<open>Two sales, the second in a store whose location cell is empty.\<close>

definition missing_location :: "raw_row list" where
  "missing_location =
     [\<lparr>transaction_id = Some 1, transaction_date = Some 738521,
       transaction_time = Some ''07:06:11'', transaction_qty = Some 2,
       store_id = Some 3, store_location = Some ''Astoria'',
       product_id = Some 32, product_category = Some ''Coffee'',
       product_type = Some ''Drip coffee'', product_detail = Some ''Ethiopia Rg'',
       unit_price = Some 3\<rparr>,
      \<lparr>transaction_id = Some 2, transaction_date = Some 738521,
       transaction_time = Some ''07:08:56'', transaction_qty = Some 1,
       store_id = Some 8, store_location = None,
       product_id = Some 32, product_category = Some ''Coffee'',
       product_type = Some ''Drip coffee'', product_detail = Some ''Ethiopia Rg'',
       unit_price = Some 3\<rparr>]"

text \<open>The daily series of the specification's second example: revenue 100 on seven
  days, 200 on the eighth.\<close>

definition week_and_a_day :: "daily_row list" where
  "week_and_a_day =
     map (\<lambda>(d, r). \<lparr>dd_date = d, dd_num_transactions = 40, dd_revenue = r, dd_items_sold = 60\<rparr>)
       [(738521, 100), (738522, 100), (738523, 100), (738524, 100),
        (738525, 100), (738526, 100), (738527, 100), (738528, 200)]"

text \<open>The ISO week of the dates from 26 December 2022 to 31 December 2023 (day 738521
  is Sunday 1 January 2023, in week 52 of 2022).\<close>

definition isoweek_2023 :: "date \<Rightarrow> nat" where
  "isoweek_2023 d = (if d < 738522 then 52 else nat ((d - 738522) div 7) + 1)"

text \<open>The two sales of the first day of the example.\<close>

definition one_day :: "raw_row list" where
  "one_day = take 2 scenario"

text \<open>A joined view with one sale on each of eight consecutive days.\<close>

definition eight_days :: "joined_row list" where
  "eight_days =
     map (\<lambda>(d, a).
            \<lparr>j_transaction_id = Some (d - 738520), j_transaction_date = Some d,
             j_transaction_time = Some ''07:06:11'', j_transaction_qty = Some 1,
             j_store_id = Some 5, j_store_location = Some ''Astoria'',
             j_product_id = Some 32, j_product_category = Some ''Coffee'',
             j_product_type = Some ''Drip coffee'', j_product_detail = Some ''Ethiopia Rg'',
             j_unit_price = Some a, j_total_amount = Some a\<rparr>)
       [(738521, 100), (738522, 100), (738523, 100), (738524, 100),
        (738525, 100), (738526, 100), (738527, 100), (738528, 200)]"

text \<open>Three days of sales: Lower Manhattan sells on each, Astoria on the first (twice)
  and on the third only.\<close>

definition gap_days :: "joined_row list" where
  "gap_days =
     map (\<lambda>(i, d, s, a).
            \<lparr>j_transaction_id = Some i, j_transaction_date = Some d,
             j_transaction_time = Some ''07:06:11'', j_transaction_qty = Some 1,
             j_store_id = Some (if s = ''Astoria'' then 3 else 5), j_store_location = Some s,
             j_product_id = Some 32, j_product_category = Some ''Coffee'',
             j_product_type = Some ''Drip coffee'', j_product_detail = Some ''Ethiopia Rg'',
             j_unit_price = Some a, j_total_amount = Some a\<rparr>)
       [(1, 738521, ''Astoria'', 4), (2, 738521, ''Astoria'', 6),
        (3, 738521, ''Lower Manhattan'', 5),
        (4, 738522, ''Lower Manhattan'', 5),
        (5, 738523, ''Astoria'', 20), (6, 738523, ''Lower Manhattan'', 5)]"

section \<open>Basic facts about the pandas operations\<close>

lemma set_drop_duplicates [simp]: "set (drop_duplicates xs) = set xs"
  by (simp add: drop_duplicates_def)

lemma distinct_drop_duplicates [simp]: "distinct (drop_duplicates xs)"
  by (simp add: drop_duplicates_def)

lemma drop_duplicates_distinct: "distinct xs \<Longrightarrow> drop_duplicates xs = xs"
  by (simp add: drop_duplicates_def distinct_remdups_id)

lemma set_dropna: "set (dropna vs) = {v. Some v \<in> set vs}"
  by (induction vs rule: dropna.induct) auto

lemma dropna_map_Some [simp]: "dropna (map Some xs) = xs"
  by (induction xs) auto

lemma set_group_keys: "set (group_keys key df) = {k. Some k \<in> key ` set df}"
  by (simp add: group_keys_def set_dropna)

lemma distinct_group_keys [simp]: "distinct (group_keys key df)"
  by (simp add: group_keys_def)

lemma sorted_group_keys [simp]: "sorted (group_keys key df)"
  by (simp add: group_keys_def)

section \<open>Ingestion: what a run with no failing load leaves\<close>

lemma products_by_key:
  "products df = map (\<lambda>k. agg_product k (group_rows product_id df k)) (group_keys product_id df)"
  by (simp add: products_def groupby_def comp_def)

lemma product_ids: "map p_product_id (products df) = map Some (group_keys product_id df)"
  by (simp add: products_by_key agg_product_def comp_def)

lemma distinct_products: "distinct (products df)"
proof -
  have "distinct (map p_product_id (products df))"
    by (simp add: product_ids distinct_map)
  then show ?thesis by (rule distinct_map [THEN iffD1, THEN conjunct1])
qed

lemma stores_idem: "drop_duplicates (stores df) = stores df"
  by (simp add: stores_def drop_duplicates_distinct)

lemma load_all_loaded:
  assumes "all_loaded f"
  shows "load_to_sql f df db =
     (\<lparr>stores_tbl = stores df, products_tbl = products df,
       transactions_tbl = drop_duplicates (transactions df)\<rparr>,
      [Loaded_stores, Loaded_products,
       Loaded_transactions (length (drop_duplicates (transactions df)))] @ success_banner)"
  using assms
  by (cases db)
     (simp add: all_loaded_def load_to_sql_def stores_idem drop_duplicates_distinct
        distinct_products Let_def)

lemma ingestion_all_loaded:
  assumes "all_loaded f"
  shows "fst (data_ingestion f df db) =
     \<lparr>stores_tbl = stores df, products_tbl = products df,
      transactions_tbl = drop_duplicates (transactions df)\<rparr>"
  by (simp add: data_ingestion_def load_all_loaded [OF assms])

lemma all_loaded_no_faults [simp]: "all_loaded no_faults"
  by (simp add: all_loaded_def no_faults_def)

section \<open>The stores table\<close>

text \<open>
  C8, as the specification states it: the stores table has exactly one row per distinct
  \<open>store_id\<close> of the raw data. The table is deduplicated on the pair
  (\<open>store_id\<close>, \<open>store_location\<close>), so a store id that the raw data spells with two
  locations has two rows.
\<close>

theorem stores_one_row_per_id_counterexample:
  "map s_store_id (stores_tbl (fst (data_ingestion no_faults two_locations empty_db)))
     = [Some 5, Some 5]"
  by (simp add: ingestion_all_loaded) code_simp

text \<open>
  C8, amended: after a run whose loads succeed, the stores table has no repeated row and
  its rows are exactly the distinct pairs (\<open>store_id\<close>, \<open>store_location\<close>) of the raw
  data; when every store id of the raw data has a single location, it has exactly one row
  per distinct store id.
\<close>

theorem stores_one_row_per_pair:
  assumes "all_loaded f"
  shows "(let tbl = stores_tbl (fst (data_ingestion f df db))
          in distinct tbl
             \<and> (\<lambda>s. (s_store_id s, s_store_location s)) ` set tbl
                   = (\<lambda>r. (store_id r, store_location r)) ` set df
             \<and> ((\<forall>r\<in>set df. \<forall>r'\<in>set df.
                    store_id r = store_id r' \<longrightarrow> store_location r = store_location r')
                  \<longrightarrow> distinct (map s_store_id tbl)
                      \<and> set (map s_store_id tbl) = store_id ` set df))"
proof -
  have proj_id: "s_store_id (store_columns r) = store_id r"
    and proj_loc: "s_store_location (store_columns r) = store_location r" for r
    by (simp_all add: store_columns_def)
  have tbl: "stores_tbl (fst (data_ingestion f df db)) = stores df"
    by (simp add: ingestion_all_loaded [OF assms])
  have d: "distinct (stores df)"
    unfolding stores_def by (rule distinct_drop_duplicates)
  have s: "set (stores df) = store_columns ` set df"
    unfolding stores_def by (simp only: set_drop_duplicates set_map)
  have p: "(\<lambda>s. (s_store_id s, s_store_location s)) ` set (stores df)
             = (\<lambda>r. (store_id r, store_location r)) ` set df"
    unfolding s by (simp only: image_image proj_id proj_loc)
  have ids: "set (map s_store_id (stores df)) = store_id ` set df"
    unfolding set_map s by (simp only: image_image proj_id)
  have inj: "distinct (map s_store_id (stores df))"
    if fd: "\<forall>r\<in>set df. \<forall>r'\<in>set df.
              store_id r = store_id r' \<longrightarrow> store_location r = store_location r'"
  proof -
    have "inj_on s_store_id (store_columns ` set df)"
    proof (rule inj_onI)
      fix a b
      assume a: "a \<in> store_columns ` set df" and b: "b \<in> store_columns ` set df"
        and eq: "s_store_id a = s_store_id b"
      from a obtain r where r: "r \<in> set df" "a = store_columns r" by blast
      from b obtain r' where r': "r' \<in> set df" "b = store_columns r'" by blast
      from eq r r' have "store_id r = store_id r'" by (simp only: proj_id)
      with fd r r' have "store_location r = store_location r'" by blast
      with \<open>store_id r = store_id r'\<close> show "a = b"
        unfolding r r' store_columns_def by simp
    qed
    with d s show ?thesis by (simp only: distinct_map)
  qed
  from d p ids inj show ?thesis
    unfolding Let_def tbl by (intro conjI impI) assumption+
qed

text \<open>The amended C8 at the example of the specification: two stores, two rows.\<close>

theorem stores_one_row_per_pair_witness:
  "all_loaded no_faults
   \<and> map s_store_id (stores_tbl (fst (data_ingestion no_faults scenario empty_db)))
       = [Some 1, Some 2]
   \<and> distinct (map s_store_id (stores_tbl (fst (data_ingestion no_faults scenario empty_db))))"
proof -
  have fd: "\<forall>r\<in>set scenario. \<forall>r'\<in>set scenario.
              store_id r = store_id r' \<longrightarrow> store_location r = store_location r'"
    by (simp add: scenario_def)
  have ids: "map s_store_id (stores_tbl (fst (data_ingestion no_faults scenario empty_db)))
       = [Some 1, Some 2]"
    by (simp add: ingestion_all_loaded) code_simp
  from stores_one_row_per_pair [OF all_loaded_no_faults, of scenario empty_db] fd
  have "distinct (map s_store_id (stores_tbl (fst (data_ingestion no_faults scenario empty_db))))"
    unfolding Let_def by blast
  with ids show ?thesis by simp
qed

section \<open>Re-running the ingestion\<close>

text \<open>
  C4: ingestion is idempotent. A run whose loads succeed leaves the three tables as a
  function of the source file alone (every load replaces its table), so a second run on
  the same file, from the state the first one left, leaves the same three tables, with
  the same row counts.
\<close>

theorem ingestion_idempotent:
  assumes "all_loaded f" and "all_loaded f'"
  shows "(let once = fst (data_ingestion f df db);
              twice = fst (data_ingestion f' df once)
          in twice = once
             \<and> length (stores_tbl twice) = length (stores_tbl once)
             \<and> length (products_tbl twice) = length (products_tbl once)
             \<and> length (transactions_tbl twice) = length (transactions_tbl once))"
  by (simp add: ingestion_all_loaded [OF assms(1)] ingestion_all_loaded [OF assms(2)] Let_def)

text \<open>C4 at the example of the specification, run twice over a database that held other
  rows before.\<close>

theorem ingestion_idempotent_witness:
  "all_loaded no_faults
   \<and> fst (data_ingestion no_faults scenario
            (fst (data_ingestion no_faults scenario
               (fst (data_ingestion no_faults two_locations empty_db)))))
       = fst (data_ingestion no_faults scenario
               (fst (data_ingestion no_faults two_locations empty_db)))
   \<and> map length [stores_tbl (fst (data_ingestion no_faults scenario
               (fst (data_ingestion no_faults two_locations empty_db))))] = [2]"
proof -
  have n: "length (stores_tbl (fst (data_ingestion no_faults scenario
               (fst (data_ingestion no_faults two_locations empty_db))))) = 2"
    by (simp add: ingestion_all_loaded) code_simp
  from ingestion_idempotent [OF all_loaded_no_faults all_loaded_no_faults,
      of scenario "fst (data_ingestion no_faults two_locations empty_db)"] n
  show ?thesis by (simp add: Let_def)
qed

section \<open>Referential integrity\<close>

lemma transactions_tbl_rows:
  "set (drop_duplicates (transactions df)) = transaction_columns ` set df"
  by (simp add: transactions_def)

text \<open>
  C3: after a run whose loads succeed, every store id of the transactions table is the
  store id of a row of the stores table, and every product id of the transactions table
  is the product id of a row of the products table. (An id is a value that is present:
  a missing cell refers to nothing.)
\<close>

theorem referential_integrity:
  assumes "all_loaded f"
  shows "(let db' = fst (data_ingestion f df db)
          in \<forall>t\<in>set (transactions_tbl db').
               (\<forall>i. t_store_id t = Some i \<longrightarrow>
                    (\<exists>s\<in>set (stores_tbl db'). s_store_id s = Some i))
               \<and> (\<forall>i. t_product_id t = Some i \<longrightarrow>
                    (\<exists>p\<in>set (products_tbl db'). p_product_id p = Some i)))"
proof -
  have store: "\<exists>s\<in>set (stores df). s_store_id s = Some i"
    if t: "t \<in> set (drop_duplicates (transactions df))" and i: "t_store_id t = Some i"
    for t i
  proof -
    from t obtain r where r: "r \<in> set df" "t = transaction_columns r"
      unfolding transactions_tbl_rows by blast
    have "store_columns r \<in> set (stores df)"
      using r(1) by (simp add: stores_def)
    moreover have "s_store_id (store_columns r) = Some i"
      using i r(2) by (simp add: store_columns_def transaction_columns_def)
    ultimately show ?thesis by blast
  qed
  have product: "\<exists>p\<in>set (products df). p_product_id p = Some j"
    if t: "t \<in> set (drop_duplicates (transactions df))" and j: "t_product_id t = Some j"
    for t j
  proof -
    from t obtain r where r: "r \<in> set df" "t = transaction_columns r"
      unfolding transactions_tbl_rows by blast
    have "product_id r = Some j"
      using j r(2) by (simp add: transaction_columns_def)
    with r(1) have "Some j \<in> product_id ` set df"
      by (metis imageI)
    then have "j \<in> set (group_keys product_id df)"
      unfolding set_group_keys by simp
    then have "Some j \<in> set (map p_product_id (products df))"
      unfolding product_ids by simp
    then obtain p where "p \<in> set (products df)" and "Some j = p_product_id p"
      unfolding set_map by (rule imageE)
    then show ?thesis
      by (intro bexI [of _ p]) simp_all
  qed
  have tbls: "stores_tbl (fst (data_ingestion f df db)) = stores df"
    "products_tbl (fst (data_ingestion f df db)) = products df"
    "transactions_tbl (fst (data_ingestion f df db)) = drop_duplicates (transactions df)"
    by (simp_all add: ingestion_all_loaded [OF assms])
  show ?thesis
    unfolding Let_def tbls using store product by blast
qed

text \<open>C3 at the third transaction of the example: store 2 and product 10 are there.\<close>

theorem referential_integrity_witness:
  "all_loaded no_faults
   \<and> Some 2 \<in> s_store_id ` set (stores_tbl (fst (data_ingestion no_faults scenario empty_db)))
   \<and> Some 10 \<in> p_product_id ` set (products_tbl (fst (data_ingestion no_faults scenario empty_db)))"
proof -
  let ?db = "fst (data_ingestion no_faults scenario empty_db)"
  have t: "transaction_columns (scenario ! 2) \<in> set (transactions_tbl ?db)"
    by (simp add: ingestion_all_loaded transactions_def scenario_def)
  have i: "t_store_id (transaction_columns (scenario ! 2)) = Some 2"
    and j: "t_product_id (transaction_columns (scenario ! 2)) = Some 10"
    by (simp_all add: transaction_columns_def scenario_def)
  from referential_integrity [OF all_loaded_no_faults, of scenario empty_db] t i j
  have "(\<exists>s\<in>set (stores_tbl ?db). s_store_id s = Some 2)
        \<and> (\<exists>p\<in>set (products_tbl ?db). p_product_id p = Some 10)"
    unfolding Let_def by blast
  then show ?thesis
    by (simp only: all_loaded_no_faults image_iff) metis
qed

section \<open>A load that fails\<close>

text \<open>
  C9: when one of the three loads raises (the stores load, else the products load, else
  the transactions load), the loads after it are not run, so their tables are as they
  were before the run, while the tables loaded before it hold the new rows; the script
  prints the message and the fixed troubleshooting checklist, then runs the verification
  and prints its last line.
\<close>

theorem load_failure_skips_rest:
  "(engine_fault f = None \<and> stores_fault f = Some (e1, left1) \<longrightarrow>
      products_tbl (fst (data_ingestion f df db)) = products_tbl db
      \<and> transactions_tbl (fst (data_ingestion f df db)) = transactions_tbl db
      \<and> snd (data_ingestion f df db) =
          prepare_lines df
          @ [Text ''Step 4: Loading data to SQL Server...'']
          @ troubleshooting e1
          @ verification f (fst (data_ingestion f df db))
          @ [Text ''Data ingestion complete!''])
   \<and> (engine_fault f = None \<and> stores_fault f = None
        \<and> products_fault f = Some (e2, left2) \<longrightarrow>
      stores_tbl (fst (data_ingestion f df db)) = stores df
      \<and> transactions_tbl (fst (data_ingestion f df db)) = transactions_tbl db
      \<and> snd (data_ingestion f df db) =
          prepare_lines df
          @ [Text ''Step 4: Loading data to SQL Server...'', Loaded_stores]
          @ troubleshooting e2
          @ verification f (fst (data_ingestion f df db))
          @ [Text ''Data ingestion complete!''])
   \<and> (engine_fault f = None \<and> stores_fault f = None \<and> products_fault f = None
        \<and> transactions_fault f = Some (e3, left3) \<longrightarrow>
      stores_tbl (fst (data_ingestion f df db)) = stores df
      \<and> products_tbl (fst (data_ingestion f df db)) = products df
      \<and> snd (data_ingestion f df db) =
          prepare_lines df
          @ [Text ''Step 4: Loading data to SQL Server...'', Loaded_stores, Loaded_products]
          @ troubleshooting e3
          @ verification f (fst (data_ingestion f df db))
          @ [Text ''Data ingestion complete!''])"
proof (intro conjI impI)
  assume "engine_fault f = None \<and> stores_fault f = Some (e1, left1)"
  then have "load_to_sql f df db = (db\<lparr>stores_tbl := left1\<rparr>, troubleshooting e1)"
    by (simp add: load_to_sql_def)
  then show "products_tbl (fst (data_ingestion f df db)) = products_tbl db"
    "transactions_tbl (fst (data_ingestion f df db)) = transactions_tbl db"
    "snd (data_ingestion f df db) =
          prepare_lines df
          @ [Text ''Step 4: Loading data to SQL Server...'']
          @ troubleshooting e1
          @ verification f (fst (data_ingestion f df db))
          @ [Text ''Data ingestion complete!'']"
    by (simp_all add: data_ingestion_def)
next
  assume "engine_fault f = None \<and> stores_fault f = None
        \<and> products_fault f = Some (e2, left2)"
  then have "load_to_sql f df db =
      (db\<lparr>stores_tbl := stores df, products_tbl := left2\<rparr>, Loaded_stores # troubleshooting e2)"
    by (simp add: load_to_sql_def stores_idem)
  then show "stores_tbl (fst (data_ingestion f df db)) = stores df"
    "transactions_tbl (fst (data_ingestion f df db)) = transactions_tbl db"
    "snd (data_ingestion f df db) =
          prepare_lines df
          @ [Text ''Step 4: Loading data to SQL Server...'', Loaded_stores]
          @ troubleshooting e2
          @ verification f (fst (data_ingestion f df db))
          @ [Text ''Data ingestion complete!'']"
    by (simp_all add: data_ingestion_def)
next
  assume "engine_fault f = None \<and> stores_fault f = None \<and> products_fault f = None
        \<and> transactions_fault f = Some (e3, left3)"
  then have "load_to_sql f df db =
      (db\<lparr>stores_tbl := stores df, products_tbl := products df, transactions_tbl := left3\<rparr>,
       [Loaded_stores, Loaded_products] @ troubleshooting e3)"
    by (simp add: load_to_sql_def stores_idem drop_duplicates_distinct distinct_products Let_def)
  then show "stores_tbl (fst (data_ingestion f df db)) = stores df"
    "products_tbl (fst (data_ingestion f df db)) = products df"
    "snd (data_ingestion f df db) =
          prepare_lines df
          @ [Text ''Step 4: Loading data to SQL Server...'', Loaded_stores, Loaded_products]
          @ troubleshooting e3
          @ verification f (fst (data_ingestion f df db))
          @ [Text ''Data ingestion complete!'']"
    by (simp_all add: data_ingestion_def)
qed

text \<open>C9 at the example of the specification, the products load failing on an empty
  database: the stores are loaded, nothing else is, and the verification reports it.\<close>

theorem load_failure_skips_rest_witness:
  "engine_fault products_down = None \<and> stores_fault products_down = None
   \<and> products_fault products_down = Some (''Login timeout expired'', [])
   \<and> map s_store_id (stores_tbl (fst (data_ingestion products_down scenario empty_db)))
        = [Some 1, Some 2]
   \<and> transactions_tbl (fst (data_ingestion products_down scenario empty_db)) = []
   \<and> snd (data_ingestion products_down scenario empty_db) =
       [Text ''Step 3: Preparing dimension tables...'',
        Prepared_stores 2, Prepared_products 2, Prepared_transactions 3,
        Text ''Step 4: Loading data to SQL Server...'',
        Loaded_stores,
        Error_line ''Login timeout expired'',
        Text ''Troubleshooting:'',
        Text ''1. Check SQL Server is running'',
        Text (''2. Verify database '' @ [CHR 0x27] @ ''MavenRoasters'' @ [CHR 0x27] @ '' exists''),
        Text ''3. Confirm tables are created'',
        Text ''4. Check ODBC Driver 17 is installed'',
        Text ''Step 5: Verifying data...'',
        Text ''Database record counts:'',
        Stores_count 2, Products_count 0, Transactions_count 0,
        Text ''Data ingestion complete!'']"
proof -
  have f: "engine_fault products_down = None \<and> stores_fault products_down = None
        \<and> products_fault products_down = Some (''Login timeout expired'', [])"
    by (simp add: products_down_def no_faults_def)
  have v: "verify_fault products_down = None"
    by (simp add: products_down_def no_faults_def)
  note r = load_failure_skips_rest [of products_down _ _ scenario empty_db
      "''Login timeout expired''" "[]", THEN conjunct2, THEN conjunct1, rule_format, OF f]
  have s: "map s_store_id (stores scenario) = [Some 1, Some 2]"
    by code_simp
  have n: "length (stores scenario) = 2" "length (products scenario) = 2"
    "length (transactions scenario) = 3"
    by code_simp+
  have p: "products_tbl (fst (data_ingestion products_down scenario empty_db)) = []"
    using f by (simp add: data_ingestion_def load_to_sql_def Let_def empty_db_def)
  show ?thesis
    using r f s n p v
    by (simp add: empty_db_def prepare_lines_def troubleshooting_def verification_def)
qed

section \<open>The example of the specification\<close>

text \<open>
  C1: on the three raw rows of the example, whatever the database held before, ingestion
  followed by the query gives a total revenue of 14.00, a revenue of 11.00 for store A and
  of 3.00 for store B, and the products table stores the unit price 3.00 for product X
  (and 5.00 for product Y).
\<close>

theorem example_scenario:
  "(let db' = fst (data_ingestion no_faults scenario db); df = query db'
    in total_revenue df = 14
       \<and> map (\<lambda>r. (ss_store_location r, ss_Total_Revenue r)) (store_stats df)
           = [(''A'', 11), (''B'', 3)]
       \<and> map (\<lambda>p. (p_product_id p, p_unit_price p)) (products_tbl db')
           = [(Some 10, Some 3), (Some 20, Some 5)])"
  unfolding ingestion_all_loaded [OF all_loaded_no_faults] Let_def
  by (intro conjI; code_simp)

section \<open>The products table\<close>

lemma first_agg_Nil [simp]: "first_agg [] = None"
  by (simp add: first_agg_def)

lemma first_agg_None [simp]: "first_agg (None # vs) = first_agg vs"
  by (simp add: first_agg_def)

lemma first_agg_Some [simp]: "first_agg (Some v # vs) = Some v"
  by (simp add: first_agg_def)

lemma first_agg_Some_iff:
  "first_agg vs = Some v \<longleftrightarrow> (\<exists>n<length vs. vs ! n = Some v \<and> (\<forall>m<n. vs ! m = None))"
proof (induction vs rule: dropna.induct)
  case 1
  show ?case by simp
next
  case (2 vs)
  have "(\<exists>n<length (None # vs). (None # vs) ! n = Some v \<and> (\<forall>m<n. (None # vs) ! m = None))
        \<longleftrightarrow> (\<exists>n<length vs. vs ! n = Some v \<and> (\<forall>m<n. vs ! m = None))" (is "?L \<longleftrightarrow> ?R")
  proof
    assume ?L
    then obtain n where n: "n < length (None # vs)" "(None # vs) ! n = Some v"
      "\<forall>m<n. (None # vs) ! m = None" by blast
    from n(2) obtain k where k: "n = Suc k" by (cases n) auto
    have "\<forall>m<k. vs ! m = None"
    proof (intro allI impI)
      fix m assume "m < k"
      then have "Suc m < n" using k by simp
      with n(3) have "(None # vs) ! Suc m = None" by blast
      then show "vs ! m = None" by simp
    qed
    with n(1,2) k show ?R by auto
  next
    assume ?R
    then obtain n where n: "n < length vs" "vs ! n = Some v" "\<forall>m<n. vs ! m = None" by blast
    have "\<forall>m<Suc n. (None # vs) ! m = None"
      using n(3) by (auto simp: nth_Cons split: nat.splits)
    with n(1,2) show ?L by (intro exI [of _ "Suc n"]) simp
  qed
  with 2 show ?case by simp
next
  case (3 x vs)
  have "(\<exists>n<length (Some x # vs). (Some x # vs) ! n = Some v
            \<and> (\<forall>m<n. (Some x # vs) ! m = None)) \<longleftrightarrow> x = v" (is "?L \<longleftrightarrow> _")
  proof
    assume ?L
    then obtain n where n: "(Some x # vs) ! n = Some v" "\<forall>m<n. (Some x # vs) ! m = None"
      by blast
    have "n = 0"
    proof (rule ccontr)
      assume "n \<noteq> 0"
      then have "0 < n" by simp
      with n(2) have "(Some x # vs) ! 0 = None" by blast
      then show False by simp
    qed
    with n(1) show "x = v" by simp
  next
    assume "x = v"
    then show ?L by (intro exI [of _ 0]) simp
  qed
  then show ?case by simp
qed

lemma first_agg_hd: "vs \<noteq> [] \<Longrightarrow> hd vs \<noteq> None \<Longrightarrow> first_agg vs = hd vs"
  by (cases vs) auto

lemma dropna_all_present: "None \<notin> set vs \<Longrightarrow> map Some (dropna vs) = vs"
  by (induction vs rule: dropna.induct) auto


lemma first_agg_map_iff:
  "first_agg (map f G) = Some v
     \<longleftrightarrow> (\<exists>n<length G. f (G ! n) = Some v \<and> (\<forall>m<n. f (G ! m) = None))"
  (is "_ \<longleftrightarrow> ?R")
proof -
  have "(\<exists>n<length (map f G). map f G ! n = Some v \<and> (\<forall>m<n. map f G ! m = None)) \<longleftrightarrow> ?R"
    (is "?L \<longleftrightarrow> _")
  proof
    assume ?L
    then obtain n where n: "n < length G" "map f G ! n = Some v" "\<forall>m<n. map f G ! m = None"
      by auto
    have "\<forall>m<n. f (G ! m) = None"
    proof (intro allI impI)
      fix m assume m: "m < n"
      with n(3) have "map f G ! m = None" by blast
      moreover from m n(1) have "m < length G" by simp
      ultimately show "f (G ! m) = None" by simp
    qed
    with n(1,2) show ?R by auto
  next
    assume ?R
    then obtain n where n: "n < length G" "f (G ! n) = Some v" "\<forall>m<n. f (G ! m) = None"
      by auto
    have "\<forall>m<n. map f G ! m = None"
    proof (intro allI impI)
      fix m assume m: "m < n"
      with n(1) have "m < length G" by simp
      with n(3) m show "map f G ! m = None" by simp
    qed
    with n(1,2) show ?L by auto
  qed
  then show ?thesis by (simp only: first_agg_Some_iff)
qed

lemma first_agg_map_hd: "G \<noteq> [] \<Longrightarrow> f (hd G) \<noteq> None \<Longrightarrow> first_agg (map f G) = f (hd G)"
  by (cases G) auto

lemma group_rows_nonempty:
  assumes "k \<in> set (group_keys key df)"
  shows "filter (\<lambda>r. key r = Some k) df \<noteq> []"
proof -
  from assms have "Some k \<in> key ` set df"
    by (simp add: set_group_keys)
  then obtain r where "r \<in> set df" "key r = Some k"
    by (metis imageE)
  then show ?thesis
    by (simp add: filter_empty_conv) blast
qed

lemma Some_image_present: "Some ` {k. Some k \<in> A} = A - {None}"
proof (rule set_eqI)
  fix x show "x \<in> Some ` {k. Some k \<in> A} \<longleftrightarrow> x \<in> A - {None}"
    by (cases x) auto
qed

lemma agg_product_sel:
  "p_product_id (agg_product k g) = Some k"
  "p_product_category (agg_product k g) = first_agg (map product_category g)"
  "p_product_type (agg_product k g) = first_agg (map product_type g)"
  "p_product_detail (agg_product k g) = first_agg (map product_detail g)"
  "p_unit_price (agg_product k g) = mean_agg (map unit_price g)"
  by (simp_all add: agg_product_def)

text \<open>
  C7, amended: after a run whose loads succeed, the products table has exactly one row
  per distinct product id that is present in the raw data. With \<open>G\<close> the raw rows of that
  product id, in input order: the row's category, type and detail are each the first value
  of that column in \<open>G\<close> that is not missing (so the value of the first raw row of \<open>G\<close>
  whenever that row has the value), and its unit price is the arithmetic mean of the unit
  prices in \<open>G\<close> that are not missing (the mean over all the rows of \<open>G\<close> when none is
  missing; missing when all are).
\<close>

theorem products_rows:
  assumes "all_loaded f"
  shows "(let tbl = products_tbl (fst (data_ingestion f df db))
          in distinct (map p_product_id tbl)
             \<and> set (map p_product_id tbl) = product_id ` set df - {None}
             \<and> (\<forall>p\<in>set tbl. \<forall>k. p_product_id p = Some k \<longrightarrow>
                  (let G = filter (\<lambda>r. product_id r = Some k) df;
                       prices = dropna (map unit_price G);
                       first_of = (\<lambda>col v. \<exists>n<length G. col (G ! n) = Some v
                                      \<and> (\<forall>m<n. col (G ! m) = None))
                   in G \<noteq> []
                      \<and> (\<forall>v. p_product_category p = Some v \<longleftrightarrow> first_of product_category v)
                      \<and> (\<forall>v. p_product_type p = Some v \<longleftrightarrow> first_of product_type v)
                      \<and> (\<forall>v. p_product_detail p = Some v \<longleftrightarrow> first_of product_detail v)
                      \<and> (product_category (hd G) \<noteq> None
                           \<longrightarrow> p_product_category p = product_category (hd G))
                      \<and> (product_type (hd G) \<noteq> None
                           \<longrightarrow> p_product_type p = product_type (hd G))
                      \<and> (product_detail (hd G) \<noteq> None
                           \<longrightarrow> p_product_detail p = product_detail (hd G))
                      \<and> p_unit_price p =
                          (if prices = [] then None
                           else Some (sum_list prices / of_nat (length prices)))
                      \<and> (None \<notin> unit_price ` set G \<longrightarrow> map unit_price G = map Some prices))))"
proof -
  have tbl: "products_tbl (fst (data_ingestion f df db)) = products df"
    by (simp add: ingestion_all_loaded [OF assms])
  have ids_d: "distinct (map p_product_id (products df))"
    by (simp add: product_ids distinct_map)
  have "Some ` {k. Some k \<in> product_id ` set df} = product_id ` set df - {None}"
    by (rule Some_image_present)
  then have ids_s: "set (map p_product_id (products df)) = product_id ` set df - {None}"
    by (simp only: product_ids set_map set_group_keys)
  have row: "p = agg_product k (filter (\<lambda>r. product_id r = Some k) df)
             \<and> filter (\<lambda>r. product_id r = Some k) df \<noteq> []"
    if p: "p \<in> set (products df)" and k: "p_product_id p = Some k" for p k
  proof -
    from p obtain k' where k': "k' \<in> set (group_keys product_id df)"
      and p': "p = agg_product k' (group_rows product_id df k')"
      unfolding products_by_key by auto
    from p' k have "k' = k" by (simp add: agg_product_sel)
    with k' p' show ?thesis
      by (simp add: group_rows_nonempty group_rows_def)
  qed
  show ?thesis
    unfolding Let_def tbl
  proof (intro conjI ballI allI impI)
    show "distinct (map p_product_id (products df))" by (rule ids_d)
    show "set (map p_product_id (products df)) = product_id ` set df - {None}" by (rule ids_s)
  next
    fix p k assume "p \<in> set (products df)" "p_product_id p = Some k"
    note r = row [OF this]
    let ?G = "filter (\<lambda>r. product_id r = Some k) df"
    from r show "?G \<noteq> []" by simp
    fix v
    from r show "(p_product_category p = Some v) =
      (\<exists>n<length ?G. product_category (?G ! n) = Some v
          \<and> (\<forall>m<n. product_category (?G ! m) = None))"
      by (simp only: agg_product_sel first_agg_map_iff)
    from r show "(p_product_type p = Some v) =
      (\<exists>n<length ?G. product_type (?G ! n) = Some v
          \<and> (\<forall>m<n. product_type (?G ! m) = None))"
      by (simp only: agg_product_sel first_agg_map_iff)
    from r show "(p_product_detail p = Some v) =
      (\<exists>n<length ?G. product_detail (?G ! n) = Some v
          \<and> (\<forall>m<n. product_detail (?G ! m) = None))"
      by (simp only: agg_product_sel first_agg_map_iff)
  next
    fix p k assume "p \<in> set (products df)" "p_product_id p = Some k"
    note r = row [OF this]
    let ?G = "filter (\<lambda>r. product_id r = Some k) df"
    from r show "p_unit_price p =
       (if dropna (map unit_price ?G) = [] then None
        else Some (sum_list (dropna (map unit_price ?G))
                   / of_nat (length (dropna (map unit_price ?G)))))"
      by (simp add: agg_product_sel mean_agg_def Let_def)
    assume "None \<notin> unit_price ` set ?G"
    then show "map unit_price ?G = map Some (dropna (map unit_price ?G))"
      by (simp only: dropna_all_present set_map not_False_eq_True)
  next
    fix p k assume "p \<in> set (products df)" "p_product_id p = Some k"
    note r = row [OF this]
    let ?G = "filter (\<lambda>r. product_id r = Some k) df"
    assume "product_category (hd ?G) \<noteq> None"
    with r show "p_product_category p = product_category (hd ?G)"
      by (simp add: agg_product_sel first_agg_map_hd)
  next
    fix p k assume "p \<in> set (products df)" "p_product_id p = Some k"
    note r = row [OF this]
    let ?G = "filter (\<lambda>r. product_id r = Some k) df"
    assume "product_type (hd ?G) \<noteq> None"
    with r show "p_product_type p = product_type (hd ?G)"
      by (simp add: agg_product_sel first_agg_map_hd)
  next
    fix p k assume "p \<in> set (products df)" "p_product_id p = Some k"
    note r = row [OF this]
    let ?G = "filter (\<lambda>r. product_id r = Some k) df"
    assume "product_detail (hd ?G) \<noteq> None"
    with r show "p_product_detail p = product_detail (hd ?G)"
      by (simp add: agg_product_sel first_agg_map_hd)
  qed
qed


text \<open>
  C7, as the specification states it: category, type and detail are those of the first
  raw row of the product id, and the unit price is the mean over all its raw rows. The
  aggregation \<open>'first'\<close> skips missing cells, and so does \<open>'mean'\<close>: here the first raw
  row has no category and the table stores the second row's, and the second row has no
  price and the table stores the first row's.
\<close>

theorem products_first_row_counterexample:
  "map product_category missing_cells = [None, Some ''Coffee'']
   \<and> map p_product_category (products_tbl (fst (data_ingestion no_faults missing_cells empty_db)))
       = [Some ''Coffee'']
   \<and> map unit_price missing_cells = [Some 3, None]
   \<and> map p_unit_price (products_tbl (fst (data_ingestion no_faults missing_cells empty_db)))
       = [Some 3]"
  unfolding ingestion_all_loaded [OF all_loaded_no_faults]
  by (intro conjI; code_simp)

text \<open>The amended C7 at product X of the example of the specification.\<close>

theorem products_rows_witness:
  "all_loaded no_faults
   \<and> hd (products_tbl (fst (data_ingestion no_faults scenario empty_db)))
       \<in> set (products_tbl (fst (data_ingestion no_faults scenario empty_db)))
   \<and> p_product_id (hd (products_tbl (fst (data_ingestion no_faults scenario empty_db))))
       = Some 10
   \<and> p_product_category (hd (products_tbl (fst (data_ingestion no_faults scenario empty_db))))
       = Some ''Coffee''
   \<and> p_unit_price (hd (products_tbl (fst (data_ingestion no_faults scenario empty_db))))
       = Some 3"
proof -
  let ?tbl = "products_tbl (fst (data_ingestion no_faults scenario empty_db))"
  let ?G = "filter (\<lambda>r. product_id r = Some 10) scenario"
  have tbl: "?tbl = products scenario"
    by (simp add: ingestion_all_loaded)
  have p: "hd ?tbl \<in> set ?tbl"
    unfolding tbl by code_simp
  have k: "p_product_id (hd ?tbl) = Some 10"
    unfolding tbl by code_simp
  have c: "product_category (hd ?G) \<noteq> None"
    by code_simp
  note row = products_rows [OF all_loaded_no_faults, of scenario empty_db, unfolded Let_def,
      THEN conjunct2, THEN conjunct2, rule_format, OF p k]
  from row c have "p_product_category (hd ?tbl) = product_category (hd ?G)"
    by blast
  moreover have "product_category (hd ?G) = Some ''Coffee''"
    by code_simp
  moreover from row have "p_unit_price (hd ?tbl) =
      (if dropna (map unit_price ?G) = [] then None
       else Some (sum_list (dropna (map unit_price ?G))
                  / of_nat (length (dropna (map unit_price ?G)))))"
    by blast
  moreover have "(if dropna (map unit_price ?G) = [] then None
       else Some (sum_list (dropna (map unit_price ?G))
                  / of_nat (length (dropna (map unit_price ?G))))) = Some 3"
    by code_simp
  ultimately show ?thesis
    using p k by simp
qed

section \<open>Aggregate consistency\<close>

text \<open>
  C2, as the specification states it: for any joined view, the per-store revenues and the
  per-category revenues each add up to the total revenue. The two tables round their sums
  to 2 decimals, and a row without a store location (or without a category) is in no
  group. First input: the mean price of the product is 3.01/3, each store's revenue rounds
  to 1.00, and the stores add up to 3.00 while the categories and the total give 3.01.
  Second input: the sale of the store without a location is missing from the per-store
  revenues.
\<close>

theorem aggregate_consistency_counterexample:
  "(let df = query (fst (data_ingestion no_faults price_change empty_db))
    in sum_list (map ss_Total_Revenue (store_stats df)) = 3
       \<and> sum_list (map cs_Revenue (category_stats df)) = 301 / 100
       \<and> total_revenue df = 301 / 100)
   \<and> (let df = query (fst (data_ingestion no_faults missing_location empty_db))
       in sum_list (map ss_Total_Revenue (store_stats df)) = 6
          \<and> sum_list (map cs_Revenue (category_stats df)) = 9
          \<and> total_revenue df = 9)"
  unfolding ingestion_all_loaded [OF all_loaded_no_faults] Let_def
  by (intro conjI; code_simp)


lemma sum_agg_map: "sum_agg (map f xs) = sum_list (map (amount f) xs)"
proof (induction xs)
  case Nil
  show ?case by (simp add: sum_agg_def)
next
  case (Cons x xs)
  then show ?case by (cases "f x") (simp_all add: sum_agg_def amount_def)
qed

lemma sum_list_filter_disjoint:
  fixes w :: "'r \<Rightarrow> 'a::comm_monoid_add"
  assumes "\<And>r. r \<in> set xs \<Longrightarrow> \<not> (P r \<and> Q r)"
  shows "sum_list (map w (filter (\<lambda>r. P r \<or> Q r) xs))
           = sum_list (map w (filter P xs)) + sum_list (map w (filter Q xs))"
  using assms
proof (induction xs)
  case Nil
  show ?case by simp
next
  case (Cons x xs)
  then have IH: "sum_list (map w (filter (\<lambda>r. P r \<or> Q r) xs))
           = sum_list (map w (filter P xs)) + sum_list (map w (filter Q xs))"
    and x: "\<not> (P x \<and> Q x)"
    by simp_all
  from x show ?case
    by (cases "P x"; cases "Q x") (simp_all add: IH ac_simps)
qed

lemma sum_groups_keys:
  fixes w :: "'r \<Rightarrow> 'a::comm_monoid_add"
  assumes "distinct ks"
  shows "(\<Sum>k\<leftarrow>ks. sum_list (map w (filter (\<lambda>r. key r = Some k) xs)))
           = sum_list (map w (filter (\<lambda>r. key r \<in> Some ` set ks) xs))"
  using assms
proof (induction ks)
  case Nil
  show ?case by simp
next
  case (Cons k ks)
  have "filter (\<lambda>r. key r \<in> Some ` set (k # ks)) xs
          = filter (\<lambda>r. key r = Some k \<or> key r \<in> Some ` set ks) xs"
    by (rule filter_cong) auto
  moreover have "sum_list (map w (filter (\<lambda>r. key r = Some k \<or> key r \<in> Some ` set ks) xs))
          = sum_list (map w (filter (\<lambda>r. key r = Some k) xs))
            + sum_list (map w (filter (\<lambda>r. key r \<in> Some ` set ks) xs))"
    using Cons.prems by (intro sum_list_filter_disjoint) auto
  ultimately show ?case
    using Cons by simp
qed

text \<open>The sums of the groups add up to the sum over the rows that have a key.\<close>

lemma sum_groupby:
  fixes f :: "'r \<Rightarrow> ('a::comm_monoid_add) option"
  shows "(\<Sum>(k, g)\<leftarrow>groupby key df. sum_agg (map f g))
           = sum_agg (map f (filter (\<lambda>r. key r \<noteq> None) df))"
proof -
  have "(\<Sum>(k, g)\<leftarrow>groupby key df. sum_agg (map f g))
          = (\<Sum>k\<leftarrow>group_keys key df. sum_list (map (amount f) (filter (\<lambda>r. key r = Some k) df)))"
    by (simp add: groupby_def group_rows_def comp_def sum_agg_map)
  also have "\<dots> = sum_list (map (amount f)
                      (filter (\<lambda>r. key r \<in> Some ` set (group_keys key df)) df))"
    by (rule sum_groups_keys) simp
  also have "filter (\<lambda>r. key r \<in> Some ` set (group_keys key df)) df
               = filter (\<lambda>r. key r \<noteq> None) df"
    by (rule filter_cong) (simp_all add: set_group_keys Some_image_present)
  finally show ?thesis
    by (simp add: sum_agg_map)
qed

lemma sum_groupby_all:
  fixes f :: "'r \<Rightarrow> ('a::comm_monoid_add) option"
  assumes "None \<notin> key ` set df"
  shows "(\<Sum>(k, g)\<leftarrow>groupby key df. sum_agg (map f g)) = sum_agg (map f df)"
proof -
  have "filter (\<lambda>r. key r \<noteq> None) df = df"
    using assms by (simp add: filter_id_conv) (metis imageI not_None_eq)
  then show ?thesis
    by (simp add: sum_groupby)
qed

lemma mset_sort_values_desc [simp]: "mset (sort_values_desc col df) = mset df"
  by (simp add: sort_values_desc_def)

lemma sum_list_sort_values_desc:
  fixes g :: "'r \<Rightarrow> 'a::comm_monoid_add"
  shows "sum_list (map g (sort_values_desc col df)) = sum_list (map g df)"
proof -
  have "mset (map g (sort_values_desc col df)) = mset (map g df)"
    by simp
  then show ?thesis
    by (metis sum_mset_sum_list)
qed


lemma round2_cents: "round2 (of_int n / 100) = of_int n / 100"
  by (simp add: round2_def rint_def)

lemma sum_list_cents:
  assumes "\<forall>a\<in>set ys. \<exists>n::int. a = rat_of_int n / 100"
  shows "\<exists>n::int. sum_list ys = rat_of_int n / 100"
  using assms
proof (induction ys)
  case Nil
  show ?case by (intro exI [of _ 0]) simp
next
  case (Cons a ys)
  then obtain n m :: int where "a = of_int n / 100" "sum_list ys = of_int m / 100"
    by auto
  then have "sum_list (a # ys) = rat_of_int (n + m) / 100"
    by (simp add: add_divide_distrib)
  then show ?case ..
qed

lemma round2_sum_agg_cents:
  assumes "\<forall>r\<in>set g. \<forall>a. f r = Some a \<longrightarrow> (\<exists>n::int. a = rat_of_int n / 100)"
  shows "round2 (sum_agg (map f g)) = sum_agg (map f g)"
proof -
  have "\<forall>a\<in>set (dropna (map f g)). \<exists>n::int. a = rat_of_int n / 100"
    using assms by (auto simp: set_dropna)
  then obtain n :: int where "sum_agg (map f g) = of_int n / 100"
    unfolding sum_agg_def using sum_list_cents by blast
  then show ?thesis
    by (simp only: round2_cents)
qed

lemma sum_round2_groupby:
  assumes "\<forall>r\<in>set df. \<forall>a. f r = Some a \<longrightarrow> (\<exists>n::int. a = rat_of_int n / 100)"
  shows "(\<Sum>(k, g)\<leftarrow>groupby key df. round2 (sum_agg (map f g)))
           = (\<Sum>(k, g)\<leftarrow>groupby key df. sum_agg (map f g))"
proof -
  have "round2 (sum_agg (map f (group_rows key df k))) = sum_agg (map f (group_rows key df k))"
    for k
    using assms unfolding group_rows_def by (intro round2_sum_agg_cents) auto
  then show ?thesis
    by (simp add: groupby_def comp_def)
qed

lemma sum_store_revenue:
  "sum_list (map snd (store_revenue df))
     = (\<Sum>(k, g)\<leftarrow>groupby j_store_location df. sum_agg (map j_total_amount g))"
  by (simp add: store_revenue_def sum_list_sort_values_desc comp_def split_def)

lemma sum_store_stats:
  "sum_list (map ss_Total_Revenue (store_stats df))
     = (\<Sum>(k, g)\<leftarrow>groupby j_store_location df. round2 (sum_agg (map j_total_amount g)))"
  by (simp add: store_stats_def sum_list_sort_values_desc comp_def split_def)

lemma sum_category_stats:
  "sum_list (map cs_Revenue (category_stats df))
     = (\<Sum>(k, g)\<leftarrow>groupby j_product_category df. round2 (sum_agg (map j_total_amount g)))"
  by (simp add: category_stats_def sum_list_sort_values_desc comp_def split_def)

text \<open>
  C2, amended: for any joined view in which every row has a store location, the
  per-store sums of \<open>total_amount\<close> before rounding (\<open>store_revenue\<close>) add up to the
  total revenue; in which every row has a product category, the per-category sums before
  rounding add up to it; and when moreover every \<open>total_amount\<close> is a whole number of
  cents, the rounded columns \<open>Total_Revenue\<close> of \<open>store_stats\<close> and \<open>Revenue\<close> of
  \<open>category_stats\<close> both add up to the total revenue.
\<close>

theorem aggregate_consistency:
  "(None \<notin> j_store_location ` set df \<longrightarrow>
      sum_list (map snd (store_revenue df)) = total_revenue df)
   \<and> (None \<notin> j_product_category ` set df \<longrightarrow>
      (\<Sum>(k, g)\<leftarrow>groupby j_product_category df. sum_agg (map j_total_amount g))
        = total_revenue df)
   \<and> (None \<notin> j_store_location ` set df \<and> None \<notin> j_product_category ` set df
        \<and> (\<forall>r\<in>set df. \<forall>a. j_total_amount r = Some a \<longrightarrow> (\<exists>n::int. a = of_int n / 100))
      \<longrightarrow> sum_list (map ss_Total_Revenue (store_stats df)) = total_revenue df
          \<and> sum_list (map cs_Revenue (category_stats df)) = total_revenue df)"
proof (intro conjI impI)
  assume s: "None \<notin> j_store_location ` set df"
  show "sum_list (map snd (store_revenue df)) = total_revenue df"
    unfolding sum_store_revenue total_revenue_def by (rule sum_groupby_all [OF s])
next
  assume c: "None \<notin> j_product_category ` set df"
  show "(\<Sum>(k, g)\<leftarrow>groupby j_product_category df. sum_agg (map j_total_amount g))
        = total_revenue df"
    unfolding total_revenue_def by (rule sum_groupby_all [OF c])
next
  assume a: "None \<notin> j_store_location ` set df \<and> None \<notin> j_product_category ` set df
        \<and> (\<forall>r\<in>set df. \<forall>a. j_total_amount r = Some a \<longrightarrow> (\<exists>n::int. a = of_int n / 100))"
  then have cents: "\<forall>r\<in>set df. \<forall>a. j_total_amount r = Some a \<longrightarrow> (\<exists>n::int. a = of_int n / 100)"
    by blast
  from a have s: "None \<notin> j_store_location ` set df" and c: "None \<notin> j_product_category ` set df"
    by blast+
  show "sum_list (map ss_Total_Revenue (store_stats df)) = total_revenue df"
    by (simp only: sum_store_stats sum_round2_groupby [OF cents] sum_groupby_all [OF s]
        total_revenue_def)
  show "sum_list (map cs_Revenue (category_stats df)) = total_revenue df"
    by (simp only: sum_category_stats sum_round2_groupby [OF cents] sum_groupby_all [OF c]
        total_revenue_def)
qed

text \<open>The amended C2 at the joined view of the example of the specification.\<close>

theorem aggregate_consistency_witness:
  "(let df = query (fst (data_ingestion no_faults scenario empty_db))
    in None \<notin> j_store_location ` set df \<and> None \<notin> j_product_category ` set df
       \<and> sum_list (map snd (store_revenue df)) = 14
       \<and> sum_list (map ss_Total_Revenue (store_stats df)) = 14
       \<and> sum_list (map cs_Revenue (category_stats df)) = 14
       \<and> total_revenue df = 14)"
proof -
  let ?df = "query (fst (data_ingestion no_faults scenario empty_db))"
  have df: "?df = query \<lparr>stores_tbl = stores scenario, products_tbl = products scenario,
      transactions_tbl = drop_duplicates (transactions scenario)\<rparr>"
    by (simp add: ingestion_all_loaded)
  have s: "None \<notin> j_store_location ` set ?df"
    unfolding df by code_simp
  have c: "None \<notin> j_product_category ` set ?df"
    unfolding df by code_simp
  have amounts: "map j_total_amount ?df = [Some (of_int 600 / 100), Some (of_int 500 / 100), Some (of_int 300 / 100)]"
    unfolding df by code_simp
  have cents: "\<forall>r\<in>set ?df. \<forall>a. j_total_amount r = Some a \<longrightarrow> (\<exists>n::int. a = of_int n / 100)"
  proof (intro ballI allI impI)
    fix r a assume "r \<in> set ?df" "j_total_amount r = Some a"
    then have "Some a \<in> set (map j_total_amount ?df)"
      by (metis imageI set_map)
    then have "a = of_int 600 / 100 \<or> a = of_int 500 / 100 \<or> a = of_int 300 / 100"
      unfolding amounts by auto
    then show "\<exists>n::int. a = of_int n / 100" by blast
  qed
  have t: "total_revenue ?df = 14"
    unfolding df by code_simp
  from aggregate_consistency [of ?df] s c cents t
  show ?thesis
    unfolding Let_def by simp
qed

section \<open>The centered 7-day moving average\<close>

lemma take_drop_nths:
  assumes "s + n \<le> length xs"
  shows "take n (drop s xs) = map (nth xs) [s..<s + n]"
  using assms by (intro nth_equalityI) auto

lemma rolling_mean_7_nth:
  assumes "i < length xs"
  shows "rolling_mean 7 xs ! i =
     (if i < 3 \<or> length xs \<le> i + 3 then None
      else Some (sum_list (map (nth xs) [i - 3..<i + 4]) / 7))"
proof (cases "i < 3 \<or> length xs \<le> i + 3")
  case True
  then show ?thesis
    using assms by (auto simp add: rolling_mean_def Let_def)
next
  case False
  then have i: "3 \<le> i" "i + 4 \<le> length xs" by simp_all
  have w: "take 7 (drop (i - 3) xs) = map (nth xs) [i - 3..<i + 4]"
    using take_drop_nths [of "i - 3" 7 xs] i by (simp add: add.commute)
  have "length (map (nth xs) [i - 3..<i + 4]) = 7"
    using i by simp
  with w have l: "length (take 7 (drop (i - 3) xs)) = 7" by simp
  have a: "min (4 + i) (length xs) = i + 4" "i + 4 - (i - 3) = 7"
    using i by simp_all
  have "rolling_mean 7 xs ! i = Some (sum_list (take 7 (drop (i - 3) xs)) / 7)"
    using assms i l by (simp add: rolling_mean_def Let_def a del: length_take length_drop)
  then show ?thesis
    using False by (simp add: w)
qed

lemma rolling_mean_length [simp]: "length (rolling_mean w xs) = length xs"
  by (simp add: rolling_mean_def)

lemma count_defined:
  assumes "length ys = n" and "\<And>i. i < n \<Longrightarrow> ys ! i \<noteq> None \<longleftrightarrow> 3 \<le> i \<and> i + 3 < n"
  shows "length (filter (\<lambda>v. v \<noteq> None) ys) = n - 6"
proof -
  have "{i. i < length ys \<and> ys ! i \<noteq> None} = {i. 3 \<le> i \<and> i + 3 < n}"
    using assms by (intro Collect_cong) (metis add_lessD1)
  also have "\<dots> = {3..<n - 3}"
    by auto
  finally show ?thesis
    by (simp add: length_filter_conv_card)
qed

text \<open>
  C6: for a daily series of \<open>N\<close> rows, \<open>MA_7\<close> has \<open>N\<close> positions; position \<open>i\<close> is
  undefined exactly when it is one of the first 3 or of the last 3 positions, and every
  other position holds the mean of the 7 revenues at positions \<open>i - 3\<close> to \<open>i + 3\<close>; so
  \<open>N - 6\<close> positions are defined (none when \<open>N \<le> 6\<close>, where the first 3 and the last 3
  positions cover the series).
\<close>

theorem rolling_mean_7_boundary:
  "length (MA_7 daily) = length daily
   \<and> (\<forall>i<length daily.
        MA_7 daily ! i =
          (if i < 3 \<or> length daily \<le> i + 3 then None
           else Some ((\<Sum>k\<leftarrow>[i - 3..<i + 4]. dd_revenue (daily ! k)) / 7)))
   \<and> length (filter (\<lambda>v. v \<noteq> None) (MA_7 daily)) = length daily - 6"
proof -
  have len: "length (MA_7 daily) = length daily"
    by (simp add: MA_7_def)
  have nth: "MA_7 daily ! i =
          (if i < 3 \<or> length daily \<le> i + 3 then None
           else Some ((\<Sum>k\<leftarrow>[i - 3..<i + 4]. dd_revenue (daily ! k)) / 7))"
    if i: "i < length daily" for i
  proof (cases "i < 3 \<or> length daily \<le> i + 3")
    case True
    then show ?thesis
      using i by (simp add: MA_7_def rolling_mean_7_nth)
  next
    case False
    then have m: "map (nth (map dd_revenue daily)) [i - 3..<i + 4]
            = map (\<lambda>k. dd_revenue (daily ! k)) [i - 3..<i + 4]"
      by (intro map_cong) auto
    have "rolling_mean 7 (map dd_revenue daily) ! i
            = Some (sum_list (map (nth (map dd_revenue daily)) [i - 3..<i + 4]) / 7)"
      using i False by (simp add: rolling_mean_7_nth)
    then show ?thesis
      unfolding MA_7_def m using False by simp
  qed
  have "MA_7 daily ! i \<noteq> None \<longleftrightarrow> 3 \<le> i \<and> i + 3 < length daily"
    if "i < length daily" for i
    using that by (auto simp add: nth simp del: not_None_eq)
  with len have "length (filter (\<lambda>v. v \<noteq> None) (MA_7 daily)) = length daily - 6"
    by (rule count_defined)
  with len nth show ?thesis
    by blast
qed

text \<open>C6 at the series 100, 100, 100, 100, 100, 100, 100, 200: positions 3 and 4 are
  defined, position 4 holds 800/7.\<close>

theorem rolling_mean_7_boundary_witness:
  "MA_7 week_and_a_day = [None, None, None, Some 100, Some (800 / 7), None, None, None]
   \<and> (4::nat) < length week_and_a_day
   \<and> MA_7 week_and_a_day ! 4
       = Some ((\<Sum>k\<leftarrow>[1..<8]. dd_revenue (week_and_a_day ! k)) / 7)"
proof -
  have l: "(4::nat) < length week_and_a_day"
    by (simp add: week_and_a_day_def)
  have v: "MA_7 week_and_a_day = [None, None, None, Some 100, Some (800 / 7), None, None, None]"
    by code_simp
  have n: "length week_and_a_day = 8"
    by (simp add: week_and_a_day_def)
  from rolling_mean_7_boundary [of week_and_a_day, THEN conjunct2, THEN conjunct1, rule_format, OF l]
  have "MA_7 week_and_a_day ! 4
       = Some ((\<Sum>k\<leftarrow>[4 - 3..<4 + 4]. dd_revenue (week_and_a_day ! k)) / 7)"
    by (simp add: n)
  then show ?thesis
    using l v by simp
qed

section \<open>The train/test split\<close>

text \<open>\<open>ceil(0.2 * n)\<close> in whole numbers.\<close>

lemma n_test_eq: "nat \<lceil>(2 / 10 :: rat) * of_nat n\<rceil> = (n + 4) div 5"
proof -
  define q where "q = (n + 4) div 5"
  have "5 * q \<le> n + 4" "n \<le> 5 * q"
    unfolding q_def by arith+
  then have "(of_nat (5 * q) :: rat) \<le> of_nat (n + 4)" "(of_nat n :: rat) \<le> of_nat (5 * q)"
    by (simp_all only: of_nat_le_iff)
  then have "rat_of_int (int q) - 1 < (2 / 10) * of_nat n" "(2 / 10) * of_nat n \<le> rat_of_int (int q)"
    by simp_all
  then have "\<lceil>(2 / 10 :: rat) * of_nat n\<rceil> = int q"
    by (simp only: ceiling_eq_iff)
  then show ?thesis
    by (simp add: q_def)
qed

lemma n_test_eq': "nat \<lceil>rat_of_nat n / 5\<rceil> = (n + 4) div 5"
  using n_test_eq [of n] by simp

lemma feature_rows_index:
  "length (feature_rows isoweek daily) = length daily"
  "map fst (feature_rows isoweek daily) = [0..<length daily]"
  by (simp_all add: feature_rows_def)

lemma daily_dates: "map dd_date (daily_data df) = group_keys j_transaction_date df"
  by (simp add: daily_data_def groupby_def comp_def)

lemma daily_dates_increasing: "sorted_wrt (<) (map dd_date (daily_data df))"
  by (simp add: daily_dates strict_sorted_iff)

lemma dates_of_eq: "dates_of daily X = map (\<lambda>i. dd_date (daily ! i)) (map fst X)"
  by (simp add: dates_of_def comp_def split_def)


lemma split_daily_small:
  assumes "length daily < 2"
  shows "split_daily isoweek daily = Inl ValueError"
proof -
  have "length daily - (length daily + 4) div 5 = 0"
    using assms by arith
  then show ?thesis
    by (simp add: split_daily_def train_test_split_def feature_rows_index n_test_eq' Let_def)
qed

lemma split_daily_segments:
  assumes "2 \<le> length daily"
  defines "n_train \<equiv> (4 * length daily) div 5"
  shows "split_daily isoweek daily =
     Inr (take n_train (feature_rows isoweek daily), drop n_train (feature_rows isoweek daily),
          take n_train (map dd_revenue daily), drop n_train (map dd_revenue daily))"
proof -
  have n: "length daily - (length daily + 4) div 5 = n_train"
    unfolding n_train_def by arith
  have "n_train \<noteq> 0"
    using assms(1) unfolding n_train_def by arith
  moreover have "length daily - n_train \<le> (length daily + 4) div 5"
    unfolding n_train_def by arith
  ultimately show ?thesis
    by (simp add: split_daily_def train_test_split_def feature_rows_index n_test_eq' Let_def n)
qed

text \<open>
  C5, amended: for every daily series of \<open>N \<ge> 2\<close> rows the split returns, without
  shuffling, the first \<open>floor(0.8 N)\<close> rows (index labels \<open>0\<close> to \<open>floor(0.8 N) - 1\<close>) as
  the training segment and the last \<open>ceil(0.2 N)\<close> rows as the test segment, and every
  date of the test segment is later than every date of the training segment. For
  \<open>N < 2\<close> the training segment would be empty and the split raises \<^verbatim>\<open>ValueError\<close>.
\<close>

theorem chronological_split:
  "(let daily = daily_data df; N = length daily
    in (N < 2 \<longrightarrow> split_daily isoweek daily = Inl ValueError)
       \<and> (2 \<le> N \<longrightarrow>
            (\<exists>X_train X_test y_train y_test.
               split_daily isoweek daily = Inr (X_train, X_test, y_train, y_test)
               \<and> length X_test = (N + 4) div 5
               \<and> length X_train = (4 * N) div 5
               \<and> map fst X_train = [0..<(4 * N) div 5]
               \<and> map fst X_test = [(4 * N) div 5..<N]
               \<and> y_train @ y_test = map dd_revenue daily
               \<and> (\<forall>d\<in>set (dates_of daily X_test).
                    \<forall>d'\<in>set (dates_of daily X_train). d' < d))))"
proof -
  define daily where "daily = daily_data df"
  define N where "N = length daily"
  define n where "n = (4 * N) div 5"
  define X where "X = feature_rows isoweek daily"
  have small: "split_daily isoweek daily = Inl ValueError" if "N < 2"
    using that unfolding N_def by (rule split_daily_small)
  have big: "\<exists>X_train X_test y_train y_test.
               split_daily isoweek daily = Inr (X_train, X_test, y_train, y_test)
               \<and> length X_test = (N + 4) div 5
               \<and> length X_train = n
               \<and> map fst X_train = [0..<n]
               \<and> map fst X_test = [n..<N]
               \<and> y_train @ y_test = map dd_revenue daily
               \<and> (\<forall>d\<in>set (dates_of daily X_test).
                    \<forall>d'\<in>set (dates_of daily X_train). d' < d)"
    if N2: "2 \<le> N"
  proof -
    have split: "split_daily isoweek daily =
        Inr (take n X, drop n X, take n (map dd_revenue daily), drop n (map dd_revenue daily))"
      using N2 unfolding N_def n_def X_def by (rule split_daily_segments)
    have lenX: "length X = N" and idx: "map fst X = [0..<N]"
      unfolding X_def N_def by (rule feature_rows_index)+
    have nN: "n \<le> N" "N - n = (N + 4) div 5"
      unfolding n_def by arith+
    have l_test: "length (drop n X) = (N + 4) div 5"
      using lenX nN by simp
    have l_train: "length (take n X) = n"
      using lenX nN by simp
    have i_train: "map fst (take n X) = [0..<n]"
      using nN by (simp add: take_map [symmetric] idx take_upt)
    have i_test: "map fst (drop n X) = [n..<N]"
      by (simp add: drop_map [symmetric] idx drop_upt)
    have y: "take n (map dd_revenue daily) @ drop n (map dd_revenue daily) = map dd_revenue daily"
      by simp
    have inc: "sorted_wrt (<) (map dd_date daily)"
      unfolding daily_def by (rule daily_dates_increasing)
    have order: "d' < d"
      if d: "d \<in> set (dates_of daily (drop n X))" and d': "d' \<in> set (dates_of daily (take n X))"
      for d d'
    proof -
      from d obtain i where i: "n \<le> i" "i < N" "d = dd_date (daily ! i)"
        unfolding dates_of_eq i_test by auto
      from d' obtain j where j: "j < n" "d' = dd_date (daily ! j)"
        unfolding dates_of_eq i_train by auto
      from i j have "j < i" "i < length (map dd_date daily)"
        by (simp_all add: N_def)
      with inc have "map dd_date daily ! j < map dd_date daily ! i"
        by (rule sorted_wrt_nth_less)
      with i j show ?thesis
        by (simp add: N_def)
    qed
    from split l_test l_train i_train i_test y order show ?thesis
      by blast
  qed
  from small big show ?thesis
    unfolding Let_def daily_def [symmetric] N_def [symmetric] n_def [symmetric] by blast
qed

text \<open>
  C5, as the specification states it, for every \<open>N\<close>: a joined view with sales on one
  day only has a daily series of one row, \<open>ceil(0.2 * 1) = 1\<close> leaves no training row,
  and the split raises instead of returning two segments.
\<close>

theorem chronological_split_counterexample:
  "length (daily_data (query (fst (data_ingestion no_faults one_day empty_db)))) = 1
   \<and> split_daily isoweek_2023 (daily_data (query (fst (data_ingestion no_faults one_day empty_db))))
       = Inl ValueError"
  unfolding ingestion_all_loaded [OF all_loaded_no_faults]
  by (intro conjI; code_simp)

text \<open>The amended C5 at eight consecutive days: six training days, then two test days.\<close>

theorem chronological_split_witness:
  "length (daily_data eight_days) = 8
   \<and> map (dates_of (daily_data eight_days)) 
       (case split_daily isoweek_2023 (daily_data eight_days) of
          Inr (X_train, X_test, y_train, y_test) \<Rightarrow> [X_train, X_test] | Inl e \<Rightarrow> [])
       = [[738521, 738522, 738523, 738524, 738525, 738526], [738527, 738528]]
   \<and> (\<exists>X_train X_test y_train y_test.
         split_daily isoweek_2023 (daily_data eight_days) = Inr (X_train, X_test, y_train, y_test)
         \<and> length X_test = 2 \<and> length X_train = 6)"
proof -
  have l: "length (daily_data eight_days) = 8"
    by code_simp
  have v: "map (dates_of (daily_data eight_days)) 
       (case split_daily isoweek_2023 (daily_data eight_days) of
          Inr (X_train, X_test, y_train, y_test) \<Rightarrow> [X_train, X_test] | Inl e \<Rightarrow> [])
       = [[738521, 738522, 738523, 738524, 738525, 738526], [738527, 738528]]"
    by code_simp
  from chronological_split [of eight_days isoweek_2023]
  have "\<exists>X_train X_test y_train y_test.
         split_daily isoweek_2023 (daily_data eight_days) = Inr (X_train, X_test, y_train, y_test)
         \<and> length X_test = 2 \<and> length X_train = 6"
    unfolding Let_def l by simp blast
  with l v show ?thesis
    by blast
qed

section \<open>The naive weekly forecast per store\<close>

lemma store_date_eq:
  "store_date r = Some k \<longleftrightarrow>
     j_store_location r = Some (fst k) \<and> j_transaction_date r = Some (snd k)"
  by (cases k; cases "j_store_location r"; cases "j_transaction_date r")
     (simp_all add: store_date_def)

lemma set_sort_values_desc [simp]: "set (sort_values_desc col df) = set df"
  by (metis mset_sort_values_desc set_mset_mset)

lemma mean_agg_present:
  "mean_agg (map Some xs) = (if xs = [] then None else Some (sum_list xs / of_nat (length xs)))"
  by (simp add: mean_agg_def)


text \<open>The revenue of a store on a date, and the dates on which a store has a sale.\<close>

lemma store_daily_by_key:
  "store_daily df =
     map (\<lambda>k. (fst k, snd k,
               sum_agg (map j_total_amount
                  (filter (\<lambda>r. j_store_location r = Some (fst k)
                               \<and> j_transaction_date r = Some (snd k)) df))))
         (group_keys store_date df)"
  by (simp add: store_daily_def groupby_def group_rows_def comp_def split_def store_date_eq)

lemma set_store_date_keys:
  "set (group_keys store_date df) =
     {k. \<exists>r\<in>set df. j_store_location r = Some (fst k) \<and> j_transaction_date r = Some (snd k)}"
proof -
  have "Some k \<in> store_date ` set df \<longleftrightarrow>
      (\<exists>r\<in>set df. j_store_location r = Some (fst k) \<and> j_transaction_date r = Some (snd k))"
    for k
  proof -
    have "Some k \<in> store_date ` set df \<longleftrightarrow> (\<exists>r\<in>set df. store_date r = Some k)"
      by (metis (no_types, lifting) image_iff)
    then show ?thesis
      by (simp only: store_date_eq)
  qed
  then show ?thesis
    by (simp only: set_group_keys)
qed

lemma store_avg_by_key:
  fixes df
  defines "K \<equiv> group_keys store_date df"
  defines "R \<equiv> (\<lambda>s d. sum_agg (map j_total_amount
                  (filter (\<lambda>r. j_store_location r = Some s
                               \<and> j_transaction_date r = Some d) df)))"
  shows "set (store_avg df) =
     (\<lambda>s. (s, mean_agg (map Some (map (R s) (map snd (filter (\<lambda>k. fst k = s) K))))))
       ` fst ` set K"
    and "distinct (map fst (store_avg df))"
proof -
  define daily where "daily = store_daily df"
  have daily: "daily = map (\<lambda>k. (fst k, snd k, R (fst k) (snd k))) K"
    unfolding daily_def K_def R_def by (rule store_daily_by_key)
  define key where "key = (\<lambda>(store :: string, _ :: date, _ :: rat). Some store)"
  have key: "key t = Some (fst t)" for t
    by (simp add: key_def split_def)
  have keys: "set (group_keys key daily) = fst ` set K"
  proof -
    have "map key daily = map Some (map fst K)"
      by (simp add: daily key comp_def)
    then have "group_keys key daily = sort (remdups (map fst K))"
      by (simp only: group_keys_def dropna_map_Some)
    then show ?thesis by simp
  qed
  have rows: "map (\<lambda>(_, _, revenue). Some revenue) (group_rows key daily s)
                = map Some (map (R s) (map snd (filter (\<lambda>k. fst k = s) K)))" for s
  proof -
    have "group_rows key daily s
            = map (\<lambda>k. (fst k, snd k, R (fst k) (snd k))) (filter (\<lambda>k. fst k = s) K)"
      by (simp add: group_rows_def daily key filter_map comp_def)
    then have "map (\<lambda>(_, _, revenue). Some revenue) (group_rows key daily s)
            = map (\<lambda>k. Some (R (fst k) (snd k))) (filter (\<lambda>k. fst k = s) K)"
      by (simp add: comp_def)
    also have "\<dots> = map (\<lambda>k. Some (R s (snd k))) (filter (\<lambda>k. fst k = s) K)"
      by (rule map_cong) simp_all
    finally show ?thesis by (simp add: comp_def)
  qed
  have avg: "store_avg df =
      sort_values_desc snd
        (map (\<lambda>s. (s, mean_agg (map Some (map (R s) (map snd (filter (\<lambda>k. fst k = s) K))))))
           (group_keys key daily))"
    unfolding store_avg_def groupby_def daily_def [symmetric] key_def [symmetric]
    by (simp add: comp_def rows)
  show "set (store_avg df) =
     (\<lambda>s. (s, mean_agg (map Some (map (R s) (map snd (filter (\<lambda>k. fst k = s) K))))))
       ` fst ` set K"
    by (simp add: avg keys)
  have "mset (map fst (store_avg df)) = mset (group_keys key daily)"
    unfolding avg by (simp add: multiset.map_comp comp_def)
  then show "distinct (map fst (store_avg df))"
    by (metis distinct_group_keys mset_eq_imp_distinct_iff)
qed


text \<open>
  C10: the forecast lists each store that has a sale on some date, once, with 7 times the
  mean of its daily revenue, the mean taken over the dates on which the store has at
  least one sale (\<open>days s\<close>): the daily revenues are added over those dates and divided by
  their number. A calendar date without a sale of the store is not among them, so it is
  not counted as a day of revenue 0.
\<close>

theorem store_weekly_forecast:
  "(let days = (\<lambda>s. {d. \<exists>r\<in>set df. j_store_location r = Some s
                             \<and> j_transaction_date r = Some d});
        revenue = (\<lambda>s d. sum_agg (map j_total_amount
                     (filter (\<lambda>r. j_store_location r = Some s
                                  \<and> j_transaction_date r = Some d) df)))
    in distinct (map fst (weekly_forecast df))
       \<and> (\<forall>s w. (s, w) \<in> set (weekly_forecast df) \<longleftrightarrow>
              days s \<noteq> {}
              \<and> w = Some ((\<Sum>d\<in>days s. revenue s d) / of_nat (card (days s)) * 7)))"
proof -
  define K where "K = group_keys store_date df"
  define R where "R = (\<lambda>s d. sum_agg (map j_total_amount
                  (filter (\<lambda>r. j_store_location r = Some s
                               \<and> j_transaction_date r = Some d) df)))"
  define days where "days = (\<lambda>s. {d. \<exists>r\<in>set df. j_store_location r = Some s
                             \<and> j_transaction_date r = Some d})"
  define Ds where "Ds = (\<lambda>s. map snd (filter (\<lambda>k. fst k = s) K))"
  have setK: "k \<in> set K \<longleftrightarrow> snd k \<in> days (fst k)" for k
    unfolding K_def days_def set_store_date_keys by simp
  have set_Ds: "set (Ds s) = days s" for s
  proof (rule set_eqI)
    fix d
    have "d \<in> set (Ds s) \<longleftrightarrow> (s, d) \<in> set K"
      unfolding Ds_def by force
    then show "d \<in> set (Ds s) \<longleftrightarrow> d \<in> days s"
      by (simp add: setK)
  qed
  have distinct_Ds: "distinct (Ds s)" for s
  proof -
    have "distinct (filter (\<lambda>k. fst k = s) K)"
      by (simp add: K_def)
    moreover have "inj_on snd (set (filter (\<lambda>k. fst k = s) K))"
      by (rule inj_onI) (simp add: prod_eq_iff)
    ultimately show ?thesis
      unfolding Ds_def by (simp only: distinct_map)
  qed
  have stores: "s \<in> fst ` set K \<longleftrightarrow> days s \<noteq> {}" for s
  proof
    assume "s \<in> fst ` set K"
    then obtain k where "k \<in> set K" "fst k = s" by blast
    then have "snd k \<in> days s" using setK by blast
    then show "days s \<noteq> {}" by blast
  next
    assume "days s \<noteq> {}"
    then obtain d where "d \<in> days s" by blast
    then have "(s, d) \<in> set K" by (simp add: setK)
    then show "s \<in> fst ` set K" by force
  qed
  define M where "M = (\<lambda>s. mean_agg (map Some (map (R s) (Ds s))))"
  have mean: "M s = Some ((\<Sum>d\<in>days s. R s d) / of_nat (card (days s)))"
    if "days s \<noteq> {}" for s
  proof -
    from that have "Ds s \<noteq> []"
      using set_Ds [of s] by auto
    moreover have "sum_list (map (R s) (Ds s)) = (\<Sum>d\<in>days s. R s d)"
      using distinct_Ds [of s] set_Ds [of s] by (simp add: sum_list_distinct_conv_sum_set)
    moreover have "length (Ds s) = card (days s)"
      using distinct_Ds [of s] set_Ds [of s] by (metis distinct_card)
    ultimately show ?thesis
      unfolding M_def mean_agg_present by simp
  qed
  have avg_set: "set (store_avg df) = (\<lambda>s. (s, M s)) ` fst ` set K"
    unfolding M_def K_def R_def Ds_def by (rule store_avg_by_key(1))
  have avg: "(s, a) \<in> set (store_avg df) \<longleftrightarrow>
      days s \<noteq> {} \<and> a = Some ((\<Sum>d\<in>days s. R s d) / of_nat (card (days s)))" for s a
  proof
    assume "(s, a) \<in> set (store_avg df)"
    then obtain s' where s': "s' \<in> fst ` set K"
      and eq: "(s, a) = (s', M s')"
      unfolding avg_set by blast
    from eq have "s' = s" "a = M s" by simp_all
    with s' show "days s \<noteq> {} \<and> a = Some ((\<Sum>d\<in>days s. R s d) / of_nat (card (days s)))"
      by (simp add: stores mean)
  next
    assume a: "days s \<noteq> {} \<and> a = Some ((\<Sum>d\<in>days s. R s d) / of_nat (card (days s)))"
    then have "s \<in> fst ` set K" and "a = M s"
      by (simp_all add: stores mean)
    then show "(s, a) \<in> set (store_avg df)"
      unfolding avg_set by blast
  qed
  have fc: "(s, w) \<in> set (weekly_forecast df) \<longleftrightarrow>
      days s \<noteq> {} \<and> w = Some ((\<Sum>d\<in>days s. R s d) / of_nat (card (days s)) * 7)" for s w
  proof
    assume "(s, w) \<in> set (weekly_forecast df)"
    then obtain a where "(s, a) \<in> set (store_avg df)" "w = map_option (\<lambda>a. a * 7) a"
      unfolding weekly_forecast_def by auto
    then show "days s \<noteq> {} \<and> w = Some ((\<Sum>d\<in>days s. R s d) / of_nat (card (days s)) * 7)"
      by (auto simp add: avg)
  next
    assume "days s \<noteq> {} \<and> w = Some ((\<Sum>d\<in>days s. R s d) / of_nat (card (days s)) * 7)"
    then have "(s, Some ((\<Sum>d\<in>days s. R s d) / of_nat (card (days s)))) \<in> set (store_avg df)"
      and "w = map_option (\<lambda>a. a * 7) (Some ((\<Sum>d\<in>days s. R s d) / of_nat (card (days s))))"
      by (simp_all add: avg)
    then show "(s, w) \<in> set (weekly_forecast df)"
      unfolding weekly_forecast_def by force
  qed
  have "map fst (weekly_forecast df) = map fst (store_avg df)"
    by (simp add: weekly_forecast_def comp_def split_def)
  then have d: "distinct (map fst (weekly_forecast df))"
    by (simp only: store_avg_by_key(2))
  from d fc show ?thesis
    unfolding Let_def days_def R_def by blast
qed

text \<open>C10 at three days on which Astoria sells 10, nothing and 20: its forecast is
  7 * (10 + 20) / 2 = 105, not 7 * 30 / 3 = 70.\<close>

theorem store_weekly_forecast_witness:
  "weekly_forecast gap_days = [(''Astoria'', Some 105), (''Lower Manhattan'', Some 35)]
   \<and> {d. \<exists>r\<in>set gap_days. j_store_location r = Some ''Astoria''
            \<and> j_transaction_date r = Some d} = {738521, 738523}
   \<and> (\<Sum>d\<in>{738521, 738523 :: date}.
         sum_agg (map j_total_amount
           (filter (\<lambda>r. j_store_location r = Some ''Astoria''
                        \<and> j_transaction_date r = Some d) gap_days))) / 2 * 7 = 105"
proof -
  let ?days = "{d. \<exists>r\<in>set gap_days. j_store_location r = Some ''Astoria''
            \<and> j_transaction_date r = Some d}"
  have w: "weekly_forecast gap_days = [(''Astoria'', Some 105), (''Lower Manhattan'', Some 35)]"
    by code_simp
  then have m: "(''Astoria'', Some 105) \<in> set (weekly_forecast gap_days)"
    by simp
  have days: "?days = {738521, 738523}"
    by (auto simp add: gap_days_def)
  from store_weekly_forecast [of gap_days, unfolded Let_def, THEN conjunct2, rule_format,
      of "''Astoria''" "Some 105"] m
  have "Some (105 :: rat) = Some ((\<Sum>d\<in>?days.
         sum_agg (map j_total_amount
           (filter (\<lambda>r. j_store_location r = Some ''Astoria''
                        \<and> j_transaction_date r = Some d) gap_days))) / of_nat (card ?days) * 7)"
    by blast
  then have "(\<Sum>d\<in>{738521, 738523 :: date}.
         sum_agg (map j_total_amount
           (filter (\<lambda>r. j_store_location r = Some ''Astoria''
                        \<and> j_transaction_date r = Some d) gap_days))) / 2 * 7 = 105"
    unfolding days by simp
  with w days show ?thesis
    by blast
qed

end
